theory Spec2Isabelle
  imports Main "HOL-Library.Word" "HOL-Library.Monad_Syntax"
begin

unbundle bit_operations_syntax

section \<open>Machine model\<close>

type_synonym u8 = "8 word"
type_synonym u32 = "32 word"

text \<open>The GPIO ports the three firmware images touch (\<open>GPIO_TypeDef *\<close> values).\<close>

datatype port = GPIOB | GPIOC | GPIOD | GPIOF | GPIOG

text \<open>
  Memory-mapped registers, named as the sources name them. \<open>GPIO_AFRH\<close> is
  \<open>AFR[1]\<close>. \<open>UART_DR\<close> is the data register of the arm-c-hello example
  (\<open>UART_BASE + 0x00\<close>). \<open>GPIO_ODR\<close> is never accessed by the firmware; it holds
  the output levels the port drives.
\<close>

datatype reg =
    RCC_AHB1ENR | RCC_AHB2ENR | RCC_APB1LENR | RCC_CCIPR1
  | GPIO_MODER port | GPIO_OTYPER port | GPIO_OSPEEDR port | GPIO_PUPDR port
  | GPIO_IDR port | GPIO_ODR port | GPIO_BSRR port | GPIO_AFRH port
  | USART3_CR1 | USART3_CR2 | USART3_CR3 | USART3_BRR | USART3_ISR | USART3_TDR
  | DMA1_ISR | DMA1_Channel1_CCR | DMA1_Channel1_CNDTR | DMA1_Channel1_CPAR
  | DMA1_Channel1_CMAR
  | UART_DR

text \<open>
  The bit masks, bit positions and addresses that the firmware takes from the
  device header \<open>stm32h563xx.h\<close> and from the linker. The header is not part of
  the sources, so every function below takes the header as a parameter
  \<open>h\<close> and the general theorems hold for every assignment of values.
\<close>

datatype hconst =
    RCC_AHB2ENR_GPIOBEN | RCC_AHB2ENR_GPIOCEN | RCC_AHB2ENR_GPIODEN
  | RCC_AHB2ENR_GPIOFEN | RCC_AHB2ENR_GPIOGEN
  | RCC_APB1LENR_USART3EN | RCC_CCIPR1_USART3SEL | RCC_AHB1ENR_DMA1EN
  | GPIO_MODER_MODE8_Msk | GPIO_MODER_MODE9_Msk | GPIO_MODER_MODE8_1 | GPIO_MODER_MODE9_1
  | GPIO_OTYPER_OT8 | GPIO_OTYPER_OT9
  | GPIO_OSPEEDR_OSPEED8_Msk | GPIO_OSPEEDR_OSPEED9_Msk
  | GPIO_PUPDR_PUPD8_Msk | GPIO_PUPDR_PUPD9_Msk | GPIO_PUPDR_PUPD9_0
  | GPIO_AFRH_AFSEL8_Msk | GPIO_AFRH_AFSEL9_Msk | GPIO_AFRH_AFSEL8_Pos | GPIO_AFRH_AFSEL9_Pos
  | USART_CR1_TE | USART_CR1_RE | USART_CR1_UE | USART_CR3_DMAT | USART_ISR_TXE_TXFNF
  | DMA_CCR_MINC | DMA_CCR_DIR | DMA_CCR_TCIE | DMA_CCR_EN | DMA_ISR_TCIF1
  | ADDR_USART3_TDR | ADDR_stress_buffer

type_synonym header = "hconst \<Rightarrow> u32"

text \<open>
  What the processor does that an observer of the bus can see: a store to a
  register, a store to cell \<open>i\<close> of \<open>stress_buffer\<close>, the breakpoint
  instruction.
\<close>

datatype event = Write reg u32 | Store nat u8 | Bkpt

text \<open>
  The hardware's side of the status registers: \<open>hw t r\<close> is the value a load from
  the volatile status register \<open>r\<close> returns when it is the \<open>t\<close>-th status load
  the processor performs.
\<close>

type_synonym hardware = "nat \<Rightarrow> reg \<Rightarrow> u32"

record machine =
  regs :: "reg \<Rightarrow> u32"
  stress_buffer :: "u8 list"
  trace :: "event list"
  ticks :: nat

text \<open>
  Modelled from the spec: the reaction of a GPIO port to a store to its
  set/reset register, which is the peripheral's and not under the sources
  (section 4.1: set bit N to assert, set bit N+16 to deassert, other bits of the
  port are not disturbed). A bit requested in both halves is asserted.
\<close>

definition bsrr_effect :: "u32 \<Rightarrow> u32 \<Rightarrow> u32" where
  "bsrr_effect odr v = (odr AND NOT (drop_bit 16 v)) OR (v AND 0xFFFF)"

text \<open>
  What a store of \<open>v\<close> to register \<open>r\<close> does to the register file. The
  set/reset register is write-only and holds nothing itself.
\<close>

fun reg_store :: "reg \<Rightarrow> u32 \<Rightarrow> (reg \<Rightarrow> u32) \<Rightarrow> reg \<Rightarrow> u32" where
  "reg_store (GPIO_BSRR p) v rs = rs(GPIO_ODR p := bsrr_effect (rs (GPIO_ODR p)) v)"
| "reg_store r v rs = rs(r := v)"

text \<open>A store \<open>r = v\<close> to a register, in program order.\<close>

definition write_reg :: "reg \<Rightarrow> u32 \<Rightarrow> machine \<Rightarrow> machine" where
  "write_reg r v m = m\<lparr>regs := reg_store r v (regs m), trace := trace m @ [Write r v]\<rparr>"

text \<open>A load from a configuration register returns what was stored last.\<close>

definition read_reg :: "reg \<Rightarrow> machine \<Rightarrow> u32" where
  "read_reg r m = regs m r"

text \<open>A load from a volatile status register asks the hardware and advances the count.\<close>

definition read_status :: "hardware \<Rightarrow> reg \<Rightarrow> machine \<Rightarrow> u32 \<times> machine" where
  "read_status hw r m = (hw (ticks m) r, m\<lparr>ticks := Suc (ticks m)\<rparr>)"

text \<open>The compound assignments \<open>R |= v\<close> and \<open>R &= ~v\<close>: a load, then a store.\<close>

definition set_bits :: "reg \<Rightarrow> u32 \<Rightarrow> machine \<Rightarrow> machine" where
  "set_bits r v m = write_reg r (read_reg r m OR v) m"

definition clear_bits :: "reg \<Rightarrow> u32 \<Rightarrow> machine \<Rightarrow> machine" where
  "clear_bits r v m = write_reg r (read_reg r m AND NOT v) m"

text \<open>A block of statements that cannot fail, executed first to last.\<close>

definition run :: "(machine \<Rightarrow> machine) list \<Rightarrow> machine \<Rightarrow> machine" where
  "run stmts m = fold (\<lambda>stmt. stmt) stmts m"

text \<open>
  Every polling loop \<open>while ((R & msk) == 0) { }\<close>: \<open>wait_flag hw r msk t\<close> is
  the count after the load that first sees the flag, and \<open>None\<close> when no load ever
  does (the loop spins forever).
\<close>

partial_function (option) wait_flag :: "hardware \<Rightarrow> reg \<Rightarrow> u32 \<Rightarrow> nat \<Rightarrow> nat option" where
  "wait_flag hw r msk t =
     (if hw t r AND msk = 0 then wait_flag hw r msk (Suc t) else Some (Suc t))"

section \<open>Board firmware for the NUCLEO-H563ZI (\<open>nucleo-h563zi/board_firmware/main.c\<close>)\<close>

definition LED1_PIN :: u32 where "LED1_PIN = 0"
definition LED2_PIN :: u32 where "LED2_PIN = 4"
definition LED3_PIN :: u32 where "LED3_PIN = 4"
definition BTN_PIN :: u32 where "BTN_PIN = 13"
definition USART3_BRR_115200_AT_64MHZ :: u32 where "USART3_BRR_115200_AT_64MHZ = 556"

text \<open>\<open>while (cycles-- > 0U) { nop }\<close>: no access to memory or to a register.\<close>

function delay_cycles :: "u32 \<Rightarrow> machine \<Rightarrow> machine" where
  "delay_cycles cycles m = (if cycles > 0 then delay_cycles (cycles - 1) m else m)"
  by pat_completeness auto
termination
proof (relation "measure (\<lambda>(cycles, m). unat cycles)")
  show "wf (measure (\<lambda>(cycles, m). unat cycles))" by simp
next
  fix cycles :: u32 and m :: machine
  assume "0 < cycles"
  then have "cycles \<noteq> 0" by (simp add: word_greater_zero_iff)
  then have "unat (cycles - 1) < unat cycles"
    by (simp add: unat_minus_one) (metis Suc_pred lessI unat_gt_0)
  then show "((cycles - 1, m), (cycles, m)) \<in> measure (\<lambda>(cycles, m). unat cycles)"
    by simp
qed

declare delay_cycles.simps [simp del]

text \<open>
  \<open>unsigned long\<close> has 32 bits on the target. A shift \<open>x << n\<close> of a 32-bit
  operand with \<open>n \<ge> 32\<close> has no defined result in C; a call that would evaluate
  one returns \<open>None\<close>. \<open>pin * 2U\<close> wraps modulo \<open>2 ^ 32\<close>.
\<close>

definition gpio_config_output :: "port \<Rightarrow> u32 \<Rightarrow> machine \<Rightarrow> machine option" where
  "gpio_config_output gpio pin m =
     (let shift = pin * 2 in
      if 32 \<le> unat shift \<or> 32 \<le> unat pin then None
      else
        let msk = push_bit (unat shift) 3 in
        Some (run
          [ (\<lambda>m. write_reg (GPIO_MODER gpio)
                  ((read_reg (GPIO_MODER gpio) m AND NOT msk) OR push_bit (unat shift) 1) m),
            clear_bits (GPIO_OTYPER gpio) (push_bit (unat pin) 1),
            (\<lambda>m. write_reg (GPIO_OSPEEDR gpio)
                  ((read_reg (GPIO_OSPEEDR gpio) m AND NOT msk) OR push_bit (unat shift) 1) m),
            clear_bits (GPIO_PUPDR gpio) msk ] m))"

definition gpio_config_input_pullup :: "port \<Rightarrow> u32 \<Rightarrow> machine \<Rightarrow> machine option" where
  "gpio_config_input_pullup gpio pin m =
     (let shift = pin * 2 in
      if 32 \<le> unat shift then None
      else
        let msk = push_bit (unat shift) 3 in
        Some (run
          [ clear_bits (GPIO_MODER gpio) msk,
            (\<lambda>m. write_reg (GPIO_PUPDR gpio)
                  ((read_reg (GPIO_PUPDR gpio) m AND NOT msk) OR push_bit (unat shift) 1) m) ] m))"

text \<open>
  The shift counts \<open>GPIO_AFRH_AFSEL8_Pos\<close> and \<open>GPIO_AFRH_AFSEL9_Pos\<close> are
  constants of the header.
\<close>

definition uart3_init :: "header \<Rightarrow> machine \<Rightarrow> machine" where
  "uart3_init h =
     run [ set_bits RCC_AHB2ENR (h RCC_AHB2ENR_GPIODEN),
           set_bits RCC_APB1LENR (h RCC_APB1LENR_USART3EN),
           clear_bits RCC_CCIPR1 (h RCC_CCIPR1_USART3SEL),
           clear_bits (GPIO_MODER GPIOD) (h GPIO_MODER_MODE8_Msk OR h GPIO_MODER_MODE9_Msk),
           set_bits (GPIO_MODER GPIOD) (h GPIO_MODER_MODE8_1 OR h GPIO_MODER_MODE9_1),
           clear_bits (GPIO_OTYPER GPIOD) (h GPIO_OTYPER_OT8 OR h GPIO_OTYPER_OT9),
           set_bits (GPIO_OSPEEDR GPIOD) (h GPIO_OSPEEDR_OSPEED8_Msk OR h GPIO_OSPEEDR_OSPEED9_Msk),
           clear_bits (GPIO_PUPDR GPIOD) (h GPIO_PUPDR_PUPD8_Msk OR h GPIO_PUPDR_PUPD9_Msk),
           set_bits (GPIO_PUPDR GPIOD) (h GPIO_PUPDR_PUPD9_0),
           clear_bits (GPIO_AFRH GPIOD) (h GPIO_AFRH_AFSEL8_Msk OR h GPIO_AFRH_AFSEL9_Msk),
           set_bits (GPIO_AFRH GPIOD)
             (push_bit (unat (h GPIO_AFRH_AFSEL8_Pos)) 7 OR push_bit (unat (h GPIO_AFRH_AFSEL9_Pos)) 7),
           write_reg USART3_CR1 0,
           write_reg USART3_CR2 0,
           write_reg USART3_CR3 0,
           write_reg USART3_BRR USART3_BRR_115200_AT_64MHZ,
           write_reg USART3_CR1 (h USART_CR1_TE OR h USART_CR1_RE OR h USART_CR1_UE) ]"

definition uart3_write_byte :: "hardware \<Rightarrow> header \<Rightarrow> u8 \<Rightarrow> machine \<Rightarrow> machine option" where
  "uart3_write_byte hw h byte m =
     (case wait_flag hw USART3_ISR (h USART_ISR_TXE_TXFNF) (ticks m) of
        None \<Rightarrow> None
      | Some t \<Rightarrow> Some (write_reg USART3_TDR (ucast byte) (m\<lparr>ticks := t\<rparr>)))"

text \<open>
  A C string is given by the characters before its terminating NUL; the cast
  \<open>(uint8_t)*s\<close> is \<open>of_char\<close>.
\<close>

fun uart3_write_str :: "hardware \<Rightarrow> header \<Rightarrow> string \<Rightarrow> machine \<Rightarrow> machine option" where
  "uart3_write_str hw h [] m = Some m"
| "uart3_write_str hw h (c # s) m =
     (case uart3_write_byte hw h (of_char c) m of
        None \<Rightarrow> None
      | Some m' \<Rightarrow> uart3_write_str hw h s m')"

text \<open>
  \<open>char buf[10]\<close> is a local array without initialiser: a cell is \<open>None\<close> until
  it has been stored to. An access outside the array or a load from a cell never
  stored to has no defined result, which is \<open>None\<close> for the whole function.

  The first loop of \<open>uart3_write_u32_dec\<close>; it returns the final \<open>value\<close>,
  \<open>i\<close> and \<open>buf\<close>.
\<close>

function digit_loop :: "u32 \<Rightarrow> u32 \<Rightarrow> u8 option list \<Rightarrow> (u32 \<times> u32 \<times> u8 option list) option" where
  "digit_loop val i buf =
     (if val > 0 \<and> i < 10 then
        (if unat i < length buf
         then digit_loop (val div 10) (i + 1) (buf[unat i := Some (ucast (48 + val mod 10))])
         else None)
      else Some (val, i, buf))"
  by pat_completeness auto
termination
proof (relation "measure (\<lambda>(val, i, buf). unat val)")
  show "wf (measure (\<lambda>(val, i, buf). unat val))" by simp
next
  fix val i :: u32 and buf :: "u8 option list"
  assume "0 < val \<and> i < 10"
  then have "0 < unat val" by (simp add: word_greater_zero_iff unat_gt_0)
  then have "unat val div 10 < unat val" by simp
  then show "((val div 10, i + 1, buf[unat i := Some (ucast (48 + val mod 10))]), (val, i, buf))
               \<in> measure (\<lambda>(val, i, buf). unat val)"
    by (simp add: unat_div)
qed

declare digit_loop.simps [simp del]

text \<open>The second loop: \<open>while (i > 0U) { i--; uart3_write_byte((uint8_t)buf[i]); }\<close>.\<close>

function emit_loop :: "hardware \<Rightarrow> header \<Rightarrow> u32 \<Rightarrow> u8 option list \<Rightarrow> machine \<Rightarrow> machine option" where
  "emit_loop hw h i buf m =
     (if i > 0 then
        (let i' = i - 1 in
         if unat i' < length buf then
           (case buf ! unat i' of
              None \<Rightarrow> None
            | Some b \<Rightarrow>
                (case uart3_write_byte hw h b m of
                   None \<Rightarrow> None
                 | Some m' \<Rightarrow> emit_loop hw h i' buf m'))
         else None)
      else Some m)"
  by pat_completeness auto
termination
proof (relation "measure (\<lambda>(hw, h, i, buf, m). unat i)")
  show "wf (measure (\<lambda>(hw, h, i, buf, m). unat i))" by simp
next
  fix hw :: hardware and h :: header and i x :: u32 and buf :: "u8 option list"
    and m m' :: machine and b :: u8
  assume "0 < i" and "x = i - 1"
  then have "unat x < unat i"
    by (simp add: word_greater_zero_iff unat_minus_one)
       (metis Suc_pred lessI unat_gt_0)
  then show "((hw, h, x, buf, m'), (hw, h, i, buf, m)) \<in> measure (\<lambda>(hw, h, i, buf, m). unat i)"
    by simp
qed

declare emit_loop.simps [simp del]

definition uart3_write_u32_dec :: "hardware \<Rightarrow> header \<Rightarrow> u32 \<Rightarrow> machine \<Rightarrow> machine option" where
  "uart3_write_u32_dec hw h val m =
     (if val = 0 then uart3_write_byte hw h (of_char CHR ''0'') m
      else (case digit_loop val 0 (replicate 10 None) of
              None \<Rightarrow> None
            | Some (val', i, buf) \<Rightarrow> emit_loop hw h i buf m))"

definition led_write :: "u32 \<Rightarrow> machine \<Rightarrow> machine" where
  "led_write on =
     run [ write_reg (GPIO_BSRR GPIOB)
             (if on \<noteq> 0 then push_bit (unat LED1_PIN) 1 else push_bit (unat (LED1_PIN + 16)) 1),
           write_reg (GPIO_BSRR GPIOF)
             (if on \<noteq> 0 then push_bit (unat LED2_PIN) 1 else push_bit (unat (LED2_PIN + 16)) 1),
           write_reg (GPIO_BSRR GPIOG)
             (if on \<noteq> 0 then push_bit (unat LED3_PIN) 1 else push_bit (unat (LED3_PIN + 16)) 1) ]"

text \<open>The characters \<open>\r\<close> and \<open>\n\<close> of the string literals.\<close>

definition CR :: char where "CR = CHR 0x0D"
definition LF :: char where "LF = CHR 0x0A"

text \<open>\<open>main\<close> up to the loop: clocks, pins, UART and the banner.\<close>

definition main_init :: "hardware \<Rightarrow> header \<Rightarrow> machine \<Rightarrow> machine option" where
  "main_init hw h m = do {
     let m = set_bits RCC_AHB2ENR
               (h RCC_AHB2ENR_GPIOBEN OR h RCC_AHB2ENR_GPIOCEN OR h RCC_AHB2ENR_GPIOFEN
                  OR h RCC_AHB2ENR_GPIOGEN) m;
     m \<leftarrow> gpio_config_output GPIOB LED1_PIN m;
     m \<leftarrow> gpio_config_output GPIOF LED2_PIN m;
     m \<leftarrow> gpio_config_output GPIOG LED3_PIN m;
     m \<leftarrow> gpio_config_input_pullup GPIOC BTN_PIN m;
     let m = uart3_init h m;
     uart3_write_str hw h (''H563-BLINK-UART'' @ [CR, LF]) m
   }"

text \<open>
  One round of \<open>while (1)\<close>. The locals \<open>blink_count\<close> and \<open>led_on\<close> travel
  with the machine.
\<close>

definition main_iter ::
  "hardware \<Rightarrow> header \<Rightarrow> u32 \<times> u32 \<times> machine \<Rightarrow> (u32 \<times> u32 \<times> machine) option" where
  "main_iter hw h st = (case st of (blink_count, led_on, m) \<Rightarrow> do {
     let led_on = led_on XOR 1;
     let m = led_write led_on m;
     let (idr, m) = read_status hw (GPIO_IDR GPIOC) m;
     let btn = drop_bit (unat BTN_PIN) idr AND 1;
     m \<leftarrow> uart3_write_str hw h ''BLINK '' m;
     m \<leftarrow> uart3_write_u32_dec hw h blink_count m;
     m \<leftarrow> uart3_write_str hw h '' PB0='' m;
     m \<leftarrow> uart3_write_u32_dec hw h led_on m;
     m \<leftarrow> uart3_write_str hw h '' PF4='' m;
     m \<leftarrow> uart3_write_u32_dec hw h led_on m;
     m \<leftarrow> uart3_write_str hw h '' PG4='' m;
     m \<leftarrow> uart3_write_u32_dec hw h led_on m;
     m \<leftarrow> uart3_write_str hw h '' BTN13='' m;
     m \<leftarrow> uart3_write_u32_dec hw h btn m;
     m \<leftarrow> uart3_write_str hw h [CR, LF] m;
     let blink_count = blink_count + 1;
     let m = delay_cycles 12000000 m;
     Some (blink_count, led_on, m)
   })"

text \<open>The loop has no exit; \<open>main_loop hw h n\<close> is its first \<open>n\<close> rounds.\<close>

fun main_loop ::
  "hardware \<Rightarrow> header \<Rightarrow> nat \<Rightarrow> u32 \<times> u32 \<times> machine \<Rightarrow> (u32 \<times> u32 \<times> machine) option" where
  "main_loop hw h 0 st = Some st"
| "main_loop hw h (Suc n) st = (case main_iter hw h st of None \<Rightarrow> None | Some st' \<Rightarrow> main_loop hw h n st')"

definition main :: "hardware \<Rightarrow> header \<Rightarrow> nat \<Rightarrow> machine \<Rightarrow> (u32 \<times> u32 \<times> machine) option" where
  "main hw h n m = do { m \<leftarrow> main_init hw h m; main_loop hw h n (0, 0, m) }"

section \<open>Stress-test firmware (\<open>hil-displacement-showcase/firmware/main.c\<close>)\<close>

text \<open>
  The functions of this file that share a name with one of the board firmware
  carry the prefix \<open>hil_\<close>.
\<close>

definition STRESS_BUFFER_SIZE :: u32 where "STRESS_BUFFER_SIZE = 256"

definition hil_uart3_init :: "header \<Rightarrow> machine \<Rightarrow> machine" where
  "hil_uart3_init h =
     run [ set_bits RCC_AHB2ENR (h RCC_AHB2ENR_GPIODEN),
           set_bits RCC_APB1LENR (h RCC_APB1LENR_USART3EN),
           clear_bits (GPIO_MODER GPIOD) (h GPIO_MODER_MODE8_Msk),
           set_bits (GPIO_MODER GPIOD) (h GPIO_MODER_MODE8_1),
           clear_bits (GPIO_AFRH GPIOD) (h GPIO_AFRH_AFSEL8_Msk),
           set_bits (GPIO_AFRH GPIOD) (push_bit (unat (h GPIO_AFRH_AFSEL8_Pos)) 7),
           write_reg USART3_BRR 556,
           set_bits USART3_CR3 (h USART_CR3_DMAT),
           write_reg USART3_CR1 (h USART_CR1_TE OR h USART_CR1_UE) ]"

definition dma1_init :: "header \<Rightarrow> machine \<Rightarrow> machine" where
  "dma1_init h =
     run [ set_bits RCC_AHB1ENR (h RCC_AHB1ENR_DMA1EN),
           write_reg DMA1_Channel1_CPAR (h ADDR_USART3_TDR),
           write_reg DMA1_Channel1_CMAR (h ADDR_stress_buffer),
           write_reg DMA1_Channel1_CNDTR STRESS_BUFFER_SIZE,
           write_reg DMA1_Channel1_CCR
             (h DMA_CCR_MINC OR h DMA_CCR_DIR OR h DMA_CCR_TCIE OR h DMA_CCR_EN) ]"

fun hil_uart3_write_str :: "hardware \<Rightarrow> header \<Rightarrow> string \<Rightarrow> machine \<Rightarrow> machine option" where
  "hil_uart3_write_str hw h [] m = Some m"
| "hil_uart3_write_str hw h (c # s) m =
     (case wait_flag hw USART3_ISR (h USART_ISR_TXE_TXFNF) (ticks m) of
        None \<Rightarrow> None
      | Some t \<Rightarrow>
          hil_uart3_write_str hw h s
            (write_reg USART3_TDR (ucast (of_char c :: u8)) (m\<lparr>ticks := t\<rparr>)))"

text \<open>The store \<open>stress_buffer[i] = v\<close>.\<close>

definition store_buffer :: "nat \<Rightarrow> u8 \<Rightarrow> machine \<Rightarrow> machine" where
  "store_buffer i v m =
     m\<lparr>stress_buffer := (stress_buffer m)[i := v], trace := trace m @ [Store i v]\<rparr>"

text \<open>\<open>for (uint32_t i = 0; i < STRESS_BUFFER_SIZE; i++) stress_buffer[i] = (uint8_t)(i & 0xFF);\<close>\<close>

function fill_loop :: "u32 \<Rightarrow> machine \<Rightarrow> machine" where
  "fill_loop i m =
     (if i < STRESS_BUFFER_SIZE
      then fill_loop (i + 1) (store_buffer (unat i) (ucast (i AND 0xFF)) m)
      else m)"
  by pat_completeness auto
termination
proof (relation "measure (\<lambda>(i, m). 256 - unat i)")
  show "wf (measure (\<lambda>(i, m). 256 - unat i))" by simp
next
  fix i :: u32 and m :: machine
  assume "i < STRESS_BUFFER_SIZE"
  then have lt: "unat i < 256" by (simp add: STRESS_BUFFER_SIZE_def word_less_nat_alt)
  then have "unat i + unat (1 :: u32) < 2 ^ LENGTH(32)" by simp
  then have "unat (i + 1) = unat i + unat (1 :: u32)" by (simp only: unat_add_lem)
  with lt show "((i + 1, store_buffer (unat i) (ucast (i AND 0xFF)) m), (i, m))
                  \<in> measure (\<lambda>(i, m). 256 - unat i)"
    by simp
qed

declare fill_loop.simps [simp del]

text \<open>The breakpoint instruction \<open>bkpt #0\<close>.\<close>

definition bkpt :: "machine \<Rightarrow> machine" where
  "bkpt m = m\<lparr>trace := trace m @ [Bkpt]\<rparr>"

text \<open>The final \<open>while(1);\<close>: it never returns.\<close>

partial_function (option) spin_forever :: "machine \<Rightarrow> machine option" where
  "spin_forever m = spin_forever m"

text \<open>
  \<open>main\<close> down to the breakpoint. \<open>None\<close>: a polling loop never saw
  its flag.
\<close>

definition hil_main_body :: "hardware \<Rightarrow> header \<Rightarrow> machine \<Rightarrow> machine option" where
  "hil_main_body hw h m = do {
     let m = fill_loop 0 m;
     let m = hil_uart3_init h m;
     let m = dma1_init h m;
     let m = write_reg (GPIO_BSRR GPIOB) (push_bit 0 1) m;
     m \<leftarrow> hil_uart3_write_str hw h (''HIL Stress Test Started'' @ [CR, LF]) m;
     t \<leftarrow> wait_flag hw DMA1_ISR (h DMA_ISR_TCIF1) (ticks m);
     let m = m\<lparr>ticks := t\<rparr>;
     m \<leftarrow> hil_uart3_write_str hw h (''HIL Stress Test Passed'' @ [CR, LF]) m;
     let m = write_reg (GPIO_BSRR GPIOB) (push_bit 16 1) m;
     Some (bkpt m)
   }"

definition hil_main :: "hardware \<Rightarrow> header \<Rightarrow> machine \<Rightarrow> machine option" where
  "hil_main hw h m = do { m \<leftarrow> hil_main_body hw h m; spin_forever m }"

subsection \<open>The same run, with its loads\<close>

text \<open>
  The trace of a machine holds the stores only. To see where the loads of the
  status registers fall between the stores, \<open>main\<close> and the \<open>uart3_write_str\<close>
  of this file are given once more, returning next to the machine the accesses
  they made, in program order: \<open>Load r t\<close> is load number \<open>t\<close> of a status
  register, from \<open>r\<close>; \<open>Do e\<close> is a store or the breakpoint.
\<close>

datatype access = Load reg nat | Do event

text \<open>
  The loads of a polling loop on \<open>r\<close> that starts as load number \<open>t\<close> and has
  seen the flag when the count is \<open>t'\<close>: one load per round.
\<close>

definition polls :: "reg \<Rightarrow> nat \<Rightarrow> nat \<Rightarrow> access list" where
  "polls r t t' = map (Load r) [t..<t']"

fun hil_uart3_write_str_log ::
  "hardware \<Rightarrow> header \<Rightarrow> string \<Rightarrow> machine \<Rightarrow> (machine \<times> access list) option" where
  "hil_uart3_write_str_log hw h [] m = Some (m, [])"
| "hil_uart3_write_str_log hw h (c # s) m =
     (case wait_flag hw USART3_ISR (h USART_ISR_TXE_TXFNF) (ticks m) of
        None \<Rightarrow> None
      | Some t \<Rightarrow>
          (case hil_uart3_write_str_log hw h s
                  (write_reg USART3_TDR (ucast (of_char c :: u8)) (m\<lparr>ticks := t\<rparr>)) of
             None \<Rightarrow> None
           | Some (m', acc) \<Rightarrow>
               Some (m', polls USART3_ISR (ticks m) t
                           @ [Do (Write USART3_TDR (ucast (of_char c :: u8)))] @ acc)))"

text \<open>The accesses of a block that loads no status register: its stores.\<close>

definition stores_since :: "machine \<Rightarrow> machine \<Rightarrow> access list" where
  "stores_since m m' = map Do (drop (length (trace m)) (trace m'))"

definition hil_main_body_log ::
  "hardware \<Rightarrow> header \<Rightarrow> machine \<Rightarrow> (machine \<times> access list) option" where
  "hil_main_body_log hw h m = do {
     let m1 = fill_loop 0 m;
     let m2 = hil_uart3_init h m1;
     let m3 = dma1_init h m2;
     let m4 = write_reg (GPIO_BSRR GPIOB) (push_bit 0 1) m3;
     (m5, started) \<leftarrow> hil_uart3_write_str_log hw h (''HIL Stress Test Started'' @ [CR, LF]) m4;
     t \<leftarrow> wait_flag hw DMA1_ISR (h DMA_ISR_TCIF1) (ticks m5);
     let m6 = m5\<lparr>ticks := t\<rparr>;
     (m7, passed) \<leftarrow> hil_uart3_write_str_log hw h (''HIL Stress Test Passed'' @ [CR, LF]) m6;
     let m8 = write_reg (GPIO_BSRR GPIOB) (push_bit 16 1) m7;
     let m9 = bkpt m8;
     Some (m9, stores_since m m4 @ started @ polls DMA1_ISR (ticks m5) t @ passed
                 @ stores_since m7 m9)
   }"

section \<open>Hello example (\<open>arm-c-hello/src/main.c\<close>)\<close>

text \<open>
  \<open>UART_DR = c\<close>: the character is stored at once, without waiting for a flag.
  Plain \<open>char\<close> is unsigned on the target, so the conversion to the 32-bit
  register is \<open>of_char\<close>.
\<close>

definition uart_putc :: "char \<Rightarrow> machine \<Rightarrow> machine" where
  "uart_putc c m = write_reg UART_DR (of_char c) m"

fun uart_puts :: "string \<Rightarrow> machine \<Rightarrow> machine" where
  "uart_puts [] m = m"
| "uart_puts (c # s) m = uart_puts s (uart_putc c m)"

text \<open>\<open>for (int i = 0; i < 100000; i++) { nop }\<close>\<close>

function hello_spin :: "int \<Rightarrow> machine \<Rightarrow> machine" where
  "hello_spin i m = (if i < 100000 then hello_spin (i + 1) m else m)"
  by pat_completeness auto
termination
  by (relation "measure (\<lambda>(i, m). nat (100000 - i))") auto

declare hello_spin.simps [simp del]

text \<open>The two banners, then the first \<open>n\<close> rounds of the loop without exit.\<close>

fun hello_loop :: "nat \<Rightarrow> machine \<Rightarrow> machine" where
  "hello_loop 0 m = m"
| "hello_loop (Suc n) m = hello_loop n (uart_puts (''Pulse...'' @ [LF]) (hello_spin 0 m))"

definition hello_main :: "nat \<Rightarrow> machine \<Rightarrow> machine" where
  "hello_main n m =
     hello_loop n
       (uart_puts (''This is running on a simulated ARM Cortex-M0.'' @ [LF])
         (uart_puts (''Hello from LabWired C Example!'' @ [LF]) m))"

section \<open>Notions used to state the properties\<close>

text \<open>
  The status flag \<open>msk\<close> of register \<open>r\<close> is seen again after every load: the
  peripheral does not stay busy forever.
\<close>

definition flag_recurs :: "hardware \<Rightarrow> reg \<Rightarrow> u32 \<Rightarrow> bool" where
  "flag_recurs hw r msk = (\<forall>t. \<exists>t'\<ge>t. hw t' r AND msk \<noteq> 0)"

definition txe_recurs :: "hardware \<Rightarrow> header \<Rightarrow> bool" where
  "txe_recurs hw h = flag_recurs hw USART3_ISR (h USART_ISR_TXE_TXFNF)"

definition tcif_recurs :: "hardware \<Rightarrow> header \<Rightarrow> bool" where
  "tcif_recurs hw h = flag_recurs hw DMA1_ISR (h DMA_ISR_TCIF1)"

text \<open>The machine after the bytes \<open>bs\<close> have been stored to the transmit data register.\<close>

definition send :: "u8 list \<Rightarrow> machine \<Rightarrow> machine" where
  "send bs m = fold (\<lambda>b. write_reg USART3_TDR (ucast b)) bs m"

text \<open>The characters a trace sends over a serial link, in order.\<close>

fun tx_char :: "event \<Rightarrow> string" where
  "tx_char (Write r v) = (if r = USART3_TDR \<or> r = UART_DR then [char_of (unat v)] else [])"
| "tx_char e = []"

definition uart_tx :: "event list \<Rightarrow> string" where
  "uart_tx tr = concat (map tx_char tr)"

text \<open>
  The decimal representation of a number, as the specification words it: most
  significant digit first, no leading zero, \<open>0\<close> for zero. \<open>dec_value\<close> reads a
  digit string back.
\<close>

definition digit_char :: "nat \<Rightarrow> char" where
  "digit_char d = ''0123456789'' ! d"

fun decimal :: "nat \<Rightarrow> string" where
  "decimal n = (if n < 10 then [digit_char n] else decimal (n div 10) @ [digit_char (n mod 10)])"

declare decimal.simps [simp del]

definition digit_value :: "char \<Rightarrow> nat" where
  "digit_value c = of_char c - 48"

definition dec_value :: "string \<Rightarrow> nat" where
  "dec_value s = foldl (\<lambda>a c. 10 * a + digit_value c) 0 s"

text \<open>The digits of a number, least significant first, and the byte of a digit.\<close>

fun lsd :: "nat \<Rightarrow> nat list" where
  "lsd n = (if n = 0 then [] else (n mod 10) # lsd (n div 10))"

declare lsd.simps [simp del]

definition digit_byte :: "nat \<Rightarrow> u8" where
  "digit_byte d = 48 + of_nat d"

text \<open>The 2-bit configuration field of pin \<open>p\<close> in a mode, speed or pull register.\<close>

definition field2 :: "u32 \<Rightarrow> nat \<Rightarrow> u32" where
  "field2 r p = drop_bit (2 * p) r AND 3"

text \<open>
  A text consists of lines that each end in carriage return, line feed: it is
  empty, or it ends in that pair, and no line feed occurs without the carriage
  return before it.
\<close>

fun crlf_lines :: "string \<Rightarrow> bool" where
  "crlf_lines [] = True"
| "crlf_lines [c] = False"
| "crlf_lines (c # d # s) =
     (if c = CR \<and> d = LF then crlf_lines s
      else if c = LF then False
      else crlf_lines (d # s))"

subsection \<open>A concrete board to run the firmware on\<close>

text \<open>
  One assignment of the header's constants, for evaluating the firmware on
  concrete inputs: the bit positions of the STM32 register map (USART, GPIO and
  RCC as on the H563, the DMA channel registers as on the parts that have
  \<open>CCR\<close>, \<open>CNDTR\<close>, \<open>CPAR\<close> and \<open>CMAR\<close>).
\<close>

fun sample_header :: header where
  "sample_header RCC_AHB2ENR_GPIOBEN = 0x2"
| "sample_header RCC_AHB2ENR_GPIOCEN = 0x4"
| "sample_header RCC_AHB2ENR_GPIODEN = 0x8"
| "sample_header RCC_AHB2ENR_GPIOFEN = 0x20"
| "sample_header RCC_AHB2ENR_GPIOGEN = 0x40"
| "sample_header RCC_APB1LENR_USART3EN = 0x40000"
| "sample_header RCC_CCIPR1_USART3SEL = 0x1C0"
| "sample_header RCC_AHB1ENR_DMA1EN = 0x1"
| "sample_header GPIO_MODER_MODE8_Msk = 0x30000"
| "sample_header GPIO_MODER_MODE9_Msk = 0xC0000"
| "sample_header GPIO_MODER_MODE8_1 = 0x20000"
| "sample_header GPIO_MODER_MODE9_1 = 0x80000"
| "sample_header GPIO_OTYPER_OT8 = 0x100"
| "sample_header GPIO_OTYPER_OT9 = 0x200"
| "sample_header GPIO_OSPEEDR_OSPEED8_Msk = 0x30000"
| "sample_header GPIO_OSPEEDR_OSPEED9_Msk = 0xC0000"
| "sample_header GPIO_PUPDR_PUPD8_Msk = 0x30000"
| "sample_header GPIO_PUPDR_PUPD9_Msk = 0xC0000"
| "sample_header GPIO_PUPDR_PUPD9_0 = 0x40000"
| "sample_header GPIO_AFRH_AFSEL8_Msk = 0xF"
| "sample_header GPIO_AFRH_AFSEL9_Msk = 0xF0"
| "sample_header GPIO_AFRH_AFSEL8_Pos = 0"
| "sample_header GPIO_AFRH_AFSEL9_Pos = 4"
| "sample_header USART_CR1_TE = 0x8"
| "sample_header USART_CR1_RE = 0x4"
| "sample_header USART_CR1_UE = 0x1"
| "sample_header USART_CR3_DMAT = 0x80"
| "sample_header USART_ISR_TXE_TXFNF = 0x80"
| "sample_header DMA_CCR_MINC = 0x80"
| "sample_header DMA_CCR_DIR = 0x10"
| "sample_header DMA_CCR_TCIE = 0x2"
| "sample_header DMA_CCR_EN = 0x1"
| "sample_header DMA_ISR_TCIF1 = 0x2"
| "sample_header ADDR_USART3_TDR = 0x40004828"
| "sample_header ADDR_stress_buffer = 0x20000000"

text \<open>
  Hardware whose status flags are all set at every load and whose input pins
  all read low.
\<close>

fun hw_ready :: hardware where
  "hw_ready t (GPIO_IDR p) = 0"
| "hw_ready t r = 0xFFFFFFFF"

text \<open>The machine out of reset: registers and buffer zero, nothing executed yet.\<close>

definition reset_machine :: machine where
  "reset_machine = \<lparr>regs = (\<lambda>r. 0), stress_buffer = replicate 256 0, trace = [], ticks = 0\<rparr>"

text \<open>
  The configuration of pin \<open>p\<close> of a port: mode field, output-type bit, speed
  field, pull field.
\<close>

definition pin_config :: "machine \<Rightarrow> port \<Rightarrow> nat \<Rightarrow> u32 \<times> bool \<times> u32 \<times> u32" where
  "pin_config m gpio p =
     (field2 (regs m (GPIO_MODER gpio)) p, bit (regs m (GPIO_OTYPER gpio)) p,
      field2 (regs m (GPIO_OSPEEDR gpio)) p, field2 (regs m (GPIO_PUPDR gpio)) p)"

text \<open>
  The reset machine after pin 1 of port B has been asserted: pins 0 and 1 of the
  port are at opposite levels.
\<close>

definition lit_machine :: machine where
  "lit_machine = write_reg (GPIO_BSRR GPIOB) 2 reset_machine"

text \<open>
  \<open>sends_to f bs out\<close>: from every machine, \<open>f\<close> returns, having stored the
  bytes \<open>bs\<close> to the transmit data register and waited some loads, and done
  nothing else; its result is \<open>out\<close> of the machine it leaves.
\<close>

definition sends_to :: "(machine \<Rightarrow> 'a option) \<Rightarrow> u8 list \<Rightarrow> (machine \<Rightarrow> 'a) \<Rightarrow> bool" where
  "sends_to f bs out = (\<forall>m. \<exists>t\<ge>ticks m. f m = Some (out (send bs (m\<lparr>ticks := t\<rparr>))))"

text \<open>The status line of one round, from the values of the three locals.\<close>

definition status_line :: "u32 \<Rightarrow> u32 \<Rightarrow> u32 \<Rightarrow> string" where
  "status_line blink_count led_on btn =
     ''BLINK '' @ decimal (unat blink_count) @ '' PB0='' @ decimal (unat led_on)
       @ '' PF4='' @ decimal (unat led_on) @ '' PG4='' @ decimal (unat led_on)
       @ '' BTN13='' @ decimal (unat btn) @ [CR, LF]"

text \<open>
  \<open>quiet m m'\<close>: between \<open>m\<close> and \<open>m'\<close> nothing was sent over a serial link, no
  status register was loaded and the buffer was not written.
\<close>

definition quiet :: "machine \<Rightarrow> machine \<Rightarrow> bool" where
  "quiet m m' \<longleftrightarrow>
     uart_tx (trace m') = uart_tx (trace m) \<and> ticks m' = ticks m
       \<and> stress_buffer m' = stress_buffer m"

text \<open>
  The stores of \<open>hil_uart3_init\<close> and of \<open>dma1_init\<close>, in program order, from
  the register file \<open>rs\<close> they start on (\<open>hil_uart3_init_trace\<close>,
  \<open>dma1_init_trace\<close>).
\<close>

definition hil_uart3_init_stores :: "header \<Rightarrow> (reg \<Rightarrow> u32) \<Rightarrow> event list" where
  "hil_uart3_init_stores h rs =
     [ Write RCC_AHB2ENR (rs RCC_AHB2ENR OR h RCC_AHB2ENR_GPIODEN),
       Write RCC_APB1LENR (rs RCC_APB1LENR OR h RCC_APB1LENR_USART3EN),
       Write (GPIO_MODER GPIOD) (rs (GPIO_MODER GPIOD) AND NOT (h GPIO_MODER_MODE8_Msk)),
       Write (GPIO_MODER GPIOD)
         ((rs (GPIO_MODER GPIOD) AND NOT (h GPIO_MODER_MODE8_Msk)) OR h GPIO_MODER_MODE8_1),
       Write (GPIO_AFRH GPIOD) (rs (GPIO_AFRH GPIOD) AND NOT (h GPIO_AFRH_AFSEL8_Msk)),
       Write (GPIO_AFRH GPIOD)
         ((rs (GPIO_AFRH GPIOD) AND NOT (h GPIO_AFRH_AFSEL8_Msk))
            OR push_bit (unat (h GPIO_AFRH_AFSEL8_Pos)) 7),
       Write USART3_BRR 556,
       Write USART3_CR3 (rs USART3_CR3 OR h USART_CR3_DMAT),
       Write USART3_CR1 (h USART_CR1_TE OR h USART_CR1_UE) ]"

definition dma1_init_stores :: "header \<Rightarrow> (reg \<Rightarrow> u32) \<Rightarrow> event list" where
  "dma1_init_stores h rs =
     [ Write RCC_AHB1ENR (rs RCC_AHB1ENR OR h RCC_AHB1ENR_DMA1EN),
       Write DMA1_Channel1_CPAR (h ADDR_USART3_TDR),
       Write DMA1_Channel1_CMAR (h ADDR_stress_buffer),
       Write DMA1_Channel1_CNDTR STRESS_BUFFER_SIZE,
       Write DMA1_Channel1_CCR
         (h DMA_CCR_MINC OR h DMA_CCR_DIR OR h DMA_CCR_TCIE OR h DMA_CCR_EN) ]"

text \<open>Hardware as \<open>hw_ready\<close>, but whose DMA never reports completion.\<close>

fun hw_no_dma :: hardware where
  "hw_no_dma t DMA1_ISR = 0"
| "hw_no_dma t (GPIO_IDR p) = 0"
| "hw_no_dma t r = 0xFFFFFFFF"

text \<open>The stores to a register of the USART.\<close>

fun is_usart_store :: "event \<Rightarrow> bool" where
  "is_usart_store (Write USART3_CR1 v) = True"
| "is_usart_store (Write USART3_CR2 v) = True"
| "is_usart_store (Write USART3_CR3 v) = True"
| "is_usart_store (Write USART3_BRR v) = True"
| "is_usart_store (Write USART3_TDR v) = True"
| "is_usart_store e = False"

text \<open>
  The register file after the stores of a trace, from the register file \<open>rs\<close>:
  what the registers hold at a given point of a run.
\<close>

fun apply_event :: "event \<Rightarrow> (reg \<Rightarrow> u32) \<Rightarrow> reg \<Rightarrow> u32" where
  "apply_event (Write r v) rs = reg_store r v rs"
| "apply_event e rs = rs"

definition replay :: "event list \<Rightarrow> (reg \<Rightarrow> u32) \<Rightarrow> reg \<Rightarrow> u32" where
  "replay tr rs = fold apply_event tr rs"

text \<open>The reset machine, but with a bit left set in the second control register.\<close>

definition dirty_machine :: machine where
  "dirty_machine = reset_machine\<lparr>regs := (\<lambda>r. 0)(USART3_CR2 := 1)\<rparr>"

text \<open>The stores among a list of accesses.\<close>

fun store_of :: "access \<Rightarrow> event list" where
  "store_of (Do e) = [e]"
| "store_of (Load r t) = []"

definition stores :: "access list \<Rightarrow> event list" where
  "stores acc = concat (map store_of acc)"

text \<open>A machine whose registers all hold a mixed pattern of bits.\<close>

definition busy_machine :: machine where
  "busy_machine = reset_machine\<lparr>regs := (\<lambda>r. 0xDEADBEEF)\<rparr>"

section \<open>Auxiliary facts\<close>

lemma ucast_of_char: "(ucast (of_char c :: u8) :: u32) = of_char c"
proof -
  have "(of_char c :: nat) < 2 ^ 8" by simp
  then have "take_bit 8 (of_char c :: nat) = of_char c"
    by (simp only: take_bit_nat_eq_self)
  then have "(ucast (of_nat (of_char c) :: u8) :: u32) = of_nat (of_char c)"
    by (simp add: unsigned_of_nat)
  then show ?thesis by (simp only: of_nat_of_char)
qed

lemma wait_flag_upto:
  "hw t' r AND msk \<noteq> 0 \<Longrightarrow> t \<le> t' \<Longrightarrow> \<exists>t''. wait_flag hw r msk t = Some t'' \<and> t < t''"
proof (induction "t' - t" arbitrary: t)
  case 0
  then have "t = t'" by simp
  with 0 show ?case by (subst wait_flag.simps) simp
next
  case (Suc d)
  show ?case
  proof (cases "hw t r AND msk = 0")
    case True
    from Suc have "d = t' - Suc t" "Suc t \<le> t'" by simp_all
    from Suc(1)[OF this(1) Suc(3) this(2)] obtain t'' where "wait_flag hw r msk (Suc t) = Some t''" "Suc t < t''" by blast
    with True show ?thesis by (subst wait_flag.simps) simp
  next
    case False
    then show ?thesis by (subst wait_flag.simps) simp
  qed
qed

lemma wait_flag_total:
  "flag_recurs hw r msk \<Longrightarrow> \<exists>t'. wait_flag hw r msk t = Some t' \<and> t < t'"
  unfolding flag_recurs_def using wait_flag_upto by blast

lemma send_Nil [simp]: "send [] m = m"
  by (simp add: send_def)

lemma send_append: "send (as @ bs) m = send bs (send as m)"
  by (simp add: send_def)

lemma send_Cons: "send (b # bs) m = send bs (write_reg USART3_TDR (ucast b) m)"
  by (simp add: send_def)

lemma write_reg_ticks_update:
  "write_reg r v (m\<lparr>ticks := t\<rparr>) = (write_reg r v m)\<lparr>ticks := t\<rparr>"
  by (simp add: write_reg_def)

lemma send_ticks_update: "send bs (m\<lparr>ticks := t\<rparr>) = (send bs m)\<lparr>ticks := t\<rparr>"
  by (induction bs arbitrary: m) (simp_all add: send_Cons write_reg_ticks_update)

lemma trace_send: "trace (send bs m) = trace m @ map (\<lambda>b. Write USART3_TDR (ucast b)) bs"
  by (induction bs arbitrary: m) (simp_all add: send_Cons write_reg_def)

lemma ticks_send [simp]: "ticks (send bs m) = ticks m"
  by (induction bs arbitrary: m) (simp_all add: send_Cons write_reg_def)

lemma stress_buffer_send [simp]: "stress_buffer (send bs m) = stress_buffer m"
  by (induction bs arbitrary: m) (simp_all add: send_Cons write_reg_def)

lemma regs_send: "r \<noteq> USART3_TDR \<Longrightarrow> regs (send bs m) r = regs m r"
  by (induction bs arbitrary: m) (simp_all add: send_Cons write_reg_def)

lemma uart3_write_byte_send:
  assumes "txe_recurs hw h"
  shows "\<exists>t>ticks m. uart3_write_byte hw h b m = Some (send [b] (m\<lparr>ticks := t\<rparr>))"
proof -
  from assms obtain t where "wait_flag hw USART3_ISR (h USART_ISR_TXE_TXFNF) (ticks m) = Some t" "ticks m < t"
    unfolding txe_recurs_def using wait_flag_total by blast
  then show ?thesis by (auto simp: uart3_write_byte_def send_Cons)
qed

lemma uart3_write_str_send:
  assumes "txe_recurs hw h"
  shows "\<exists>t\<ge>ticks m. uart3_write_str hw h s m = Some (send (map of_char s) (m\<lparr>ticks := t\<rparr>))"
proof (induction s arbitrary: m)
  case Nil
  have "uart3_write_str hw h [] m = Some (send (map of_char []) (m\<lparr>ticks := ticks m\<rparr>))" by simp
  then show ?case by blast
next
  case (Cons c s)
  from uart3_write_byte_send[OF assms] obtain t1 where
    t1: "ticks m < t1" "uart3_write_byte hw h (of_char c) m = Some (send [of_char c] (m\<lparr>ticks := t1\<rparr>))"
    by blast
  from Cons[of "send [of_char c] (m\<lparr>ticks := t1\<rparr>)"] obtain t2 where
    t2: "t1 \<le> t2" "uart3_write_str hw h s (send [of_char c] (m\<lparr>ticks := t1\<rparr>))
         = Some (send (map of_char s) ((send [of_char c] (m\<lparr>ticks := t1\<rparr>))\<lparr>ticks := t2\<rparr>))"
    by auto
  have "uart3_write_str hw h (c # s) m = Some (send (map of_char (c # s)) (m\<lparr>ticks := t2\<rparr>))"
    using t1 t2 by (simp add: send_Cons send_ticks_update write_reg_def)
  moreover have "ticks m \<le> t2" using t1 t2 by simp
  ultimately show ?case by blast
qed

lemma lsd_0 [simp]: "lsd 0 = []"
  by (simp add: lsd.simps)

lemma lsd_pos: "0 < n \<Longrightarrow> lsd n = (n mod 10) # lsd (n div 10)"
  by (subst lsd.simps) simp

lemma length_lsd_le: "n < 10 ^ k \<Longrightarrow> length (lsd n) \<le> k"
proof (induction k arbitrary: n)
  case 0
  then show ?case by simp
next
  case (Suc k)
  show ?case
  proof (cases "n = 0")
    case True
    then show ?thesis by simp
  next
    case False
    from Suc.prems have "n div 10 < 10 ^ k" by (simp add: less_mult_imp_div_less mult.commute)
    from Suc.IH[OF this] False show ?thesis by (simp add: lsd_pos)
  qed
qed

lemma length_lsd_u32: "length (lsd (unat (v :: u32))) \<le> 10"
proof -
  have "unat v < 2 ^ 32" using unsigned_less[of v] by simp
  then have "unat v < 10 ^ 10" by simp
  then show ?thesis by (rule length_lsd_le)
qed

lemma lsd_digits: "d \<in> set (lsd n) \<Longrightarrow> d < 10"
  by (induction n rule: lsd.induct) (subst (asm) lsd.simps, auto split: if_splits)

lemma decimal_lsd: "0 < n \<Longrightarrow> decimal n = map digit_char (rev (lsd n))"
proof (induction n rule: decimal.induct)
  case (1 n)
  show ?case
  proof (cases "n < 10")
    case True
    with 1(2) show ?thesis by (simp add: decimal.simps lsd_pos)
  next
    case False
    then have "0 < n div 10" by simp
    with 1 False show ?thesis
      by (subst decimal.simps) (simp add: lsd_pos[of n])
  qed
qed

lemma digit_loop_store:
  "length buf = 10 \<Longrightarrow> unat i + length (lsd (unat val)) \<le> 10 \<Longrightarrow>
   digit_loop val i buf =
     Some (0, i + of_nat (length (lsd (unat val))),
           take (unat i) buf @ map (\<lambda>d. Some (digit_byte d)) (lsd (unat val))
             @ drop (unat i + length (lsd (unat val))) buf)"
proof (induction val i buf rule: digit_loop.induct)
  case (1 val i buf)
  show ?case
  proof (cases "val = 0")
    case True
    then show ?thesis by (subst digit_loop.simps) simp
  next
    case False
    then have pos: "0 < unat val" by (simp add: unat_gt_0)
    let ?n = "unat val"
    have l: "lsd ?n = (?n mod 10) # lsd (?n div 10)" using pos by (rule lsd_pos)
    with 1(3) have ilt: "unat i < 10" by simp
    then have ilt': "i < 10" by (simp add: word_less_nat_alt)
    have vpos: "0 < val" using False by (simp add: word_greater_zero_iff)
    have "unat i + unat (1 :: u32) < 2 ^ LENGTH(32)" using ilt by simp
    then have "unat (i + 1) = unat i + unat (1 :: u32)" by (simp only: unat_add_lem)
    then have ui: "unat (i + 1) = Suc (unat i)" by simp
    let ?buf' = "buf[unat i := Some (ucast (48 + val mod 10))]"
    have dv: "unat (val div 10) = ?n div 10" by (simp add: unat_div)
    have len': "length ?buf' = 10" using 1(2) by simp
    have room: "unat (i + 1) + length (lsd (unat (val div 10))) \<le> 10"
      using 1(3) l ui dv by simp
    have c: "0 < val \<and> i < 10" using vpos ilt' by simp
    have b: "unat i < length buf" using ilt 1(2) by simp
    note IH = 1(1)[OF c b len' room]
    have um: "unat (val mod 10) = ?n mod 10" by (simp add: unat_mod)
    then have "unat (48 :: u32) + unat (val mod 10) < 2 ^ LENGTH(32)" by simp
    then have "unat (48 + val mod 10) = unat (48 :: u32) + unat (val mod 10)"
      by (simp only: unat_add_lem)
    then have "unat (48 + val mod 10) = 48 + ?n mod 10" using um by simp
    moreover have "(ucast (48 + val mod 10) :: u8) = of_nat (unat (48 + val mod 10))" by simp
    ultimately have "(ucast (48 + val mod 10) :: u8) = digit_byte (?n mod 10)"
      by (simp only: digit_byte_def of_nat_add of_nat_numeral)
    moreover have "take (Suc (unat i)) ?buf' = take (unat i) buf @ [?buf' ! unat i]"
      using ilt 1(2) by (simp add: take_Suc_conv_app_nth)
    ultimately show ?thesis
      using c b l ui dv IH 1(2)
      by (subst digit_loop.simps) (simp add: nth_list_update)
  qed
qed

lemma digit_cases:
  "(d::nat) < 10 \<Longrightarrow> d = 0 \<or> d = 1 \<or> d = 2 \<or> d = 3 \<or> d = 4 \<or> d = 5 \<or> d = 6 \<or> d = 7 \<or> d = 8 \<or> d = 9"
  by arith

lemma digit_value_char: "d < 10 \<Longrightarrow> digit_value (digit_char d) = d"
  by (drule digit_cases) (auto simp: digit_value_def digit_char_def)

lemma digit_char_in: "d < 10 \<Longrightarrow> digit_char d \<in> set ''0123456789''"
  by (drule digit_cases) (auto simp: digit_char_def)

lemma digit_char_zero: "d < 10 \<Longrightarrow> digit_char d = CHR ''0'' \<longleftrightarrow> d = 0"
  by (drule digit_cases) (auto simp: digit_char_def)

lemma ucast_digit_byte: "d < 10 \<Longrightarrow> (ucast (digit_byte d) :: u32) = of_char (digit_char d)"
  by (drule digit_cases) (auto simp: digit_byte_def digit_char_def)

lemma of_char_digit_char: "d < 10 \<Longrightarrow> (of_char (digit_char d) :: u8) = digit_byte d"
  by (drule digit_cases) (auto simp: digit_byte_def digit_char_def)

lemma decimal_nonempty: "decimal n \<noteq> []"
  by (subst decimal.simps) simp

lemma decimal_digits: "set (decimal n) \<subseteq> set ''0123456789''"
proof (induction n rule: decimal.induct)
  case (1 n)
  show ?case
  proof (cases "n < 10")
    case True
    then show ?thesis using digit_char_in[of n] by (subst decimal.simps) simp
  next
    case False
    have "n mod 10 < 10" by simp
    from digit_char_in[OF this] 1[OF False] False show ?thesis
      by (subst decimal.simps) simp
  qed
qed

lemma dec_value_snoc: "dec_value (s @ [c]) = 10 * dec_value s + digit_value c"
  by (simp add: dec_value_def)

lemma dec_value_decimal: "dec_value (decimal n) = n"
proof (induction n rule: decimal.induct)
  case (1 n)
  show ?case
  proof (cases "n < 10")
    case True
    then show ?thesis
      by (subst decimal.simps) (simp add: dec_value_def digit_value_char)
  next
    case False
    with 1 show ?thesis
      by (subst decimal.simps) (simp add: dec_value_snoc digit_value_char)
  qed
qed

lemma decimal_zero: "decimal 0 = ''0''"
  by (simp add: decimal.simps digit_char_def)

lemma decimal_no_leading_zero: "0 < n \<Longrightarrow> hd (decimal n) \<noteq> CHR ''0''"
proof (induction n rule: decimal.induct)
  case (1 n)
  show ?case
  proof (cases "n < 10")
    case True
    with 1(2) show ?thesis
      by (subst decimal.simps) (simp add: digit_char_zero)
  next
    case False
    then have "0 < n div 10" by simp
    with 1(1)[OF False] False show ?thesis
      by (subst decimal.simps) (simp add: decimal_nonempty)
  qed
qed

lemma emit_loop_send:
  assumes "txe_recurs hw h"
  shows "buf = map Some bs @ rest \<Longrightarrow> unat i = length bs \<Longrightarrow>
         \<exists>t\<ge>ticks m. emit_loop hw h i buf m = Some (send (rev bs) (m\<lparr>ticks := t\<rparr>))"
proof (induction bs arbitrary: i m rest rule: rev_induct)
  case Nil
  then have "i = 0" by (simp add: unat_eq_0)
  then have "emit_loop hw h i buf m = Some (send (rev []) (m\<lparr>ticks := ticks m\<rparr>))"
    by (subst emit_loop.simps) simp
  then show ?case by blast
next
  case (snoc b bs)
  from snoc(3) have nz: "i \<noteq> 0" by auto
  then have pos: "0 < i" by (simp add: word_greater_zero_iff)
  have ui: "unat (i - 1) = length bs" using nz snoc(3) by (simp add: unat_minus_one)
  have inb: "unat (i - 1) < length buf" using ui snoc(2) by simp
  have cell: "buf ! unat (i - 1) = Some b" using ui snoc(2) by (simp add: nth_append)
  from uart3_write_byte_send[OF assms] obtain t1 where
    t1: "ticks m < t1" "uart3_write_byte hw h b m = Some (send [b] (m\<lparr>ticks := t1\<rparr>))"
    by blast
  have buf: "buf = map Some bs @ (Some b # rest)" using snoc(2) by simp
  from snoc(1)[OF buf ui, of "send [b] (m\<lparr>ticks := t1\<rparr>)"] obtain t2 where
    t2: "t1 \<le> t2" "emit_loop hw h (i - 1) buf (send [b] (m\<lparr>ticks := t1\<rparr>))
         = Some (send (rev bs) ((send [b] (m\<lparr>ticks := t1\<rparr>))\<lparr>ticks := t2\<rparr>))"
    by auto
  have "emit_loop hw h i buf m = Some (send (rev (bs @ [b])) (m\<lparr>ticks := t2\<rparr>))"
    using pos inb cell t1 t2
    by (subst emit_loop.simps) (simp add: send_Cons send_ticks_update write_reg_ticks_update)
  moreover have "ticks m \<le> t2" using t1 t2 by simp
  ultimately show ?case by blast
qed

lemma uart3_write_u32_dec_send:
  assumes "txe_recurs hw h"
  shows "\<exists>t\<ge>ticks m. uart3_write_u32_dec hw h v m
           = Some (send (map of_char (decimal (unat v))) (m\<lparr>ticks := t\<rparr>))"
proof (cases "v = 0")
  case True
  from uart3_write_byte_send[OF assms, of m "of_char CHR ''0''"] True show ?thesis
    by (auto simp: uart3_write_u32_dec_def decimal_zero intro: less_imp_le)
next
  case False
  let ?ds = "lsd (unat v)"
  have pos: "0 < unat v" using False by (simp add: unat_gt_0)
  have len: "length ?ds \<le> 10" by (rule length_lsd_u32)
  have dl: "digit_loop v 0 (replicate 10 None) =
          Some (0, of_nat (length ?ds), map Some (map digit_byte ?ds) @ drop (length ?ds) (replicate 10 None))"
    using digit_loop_store[of "replicate 10 None" 0 v] len by (simp add: comp_def)
  have ui: "unat (of_nat (length ?ds) :: u32) = length (map digit_byte ?ds)"
    using len by (simp add: unat_of_nat)
  from emit_loop_send[OF assms refl ui, where m = m] obtain t where
    t: "ticks m \<le> t" "emit_loop hw h (of_nat (length ?ds))
          (map Some (map digit_byte ?ds) @ drop (length ?ds) (replicate 10 None)) m
        = Some (send (rev (map digit_byte ?ds)) (m\<lparr>ticks := t\<rparr>))"
    by blast
  have "map (of_char :: char \<Rightarrow> u8) (decimal (unat v)) = rev (map digit_byte ?ds)"
    using pos by (simp add: decimal_lsd rev_map lsd_digits of_char_digit_char)
  with t dl False show ?thesis
    by (auto simp: uart3_write_u32_dec_def)
qed

lemma all_ones_and: "(0xFFFFFFFF :: u32) AND msk = msk"
proof -
  have "(0xFFFFFFFF :: u32) = - 1" by simp
  then show ?thesis by (simp only: and.left_neutral)
qed

lemma flag_recurs_hw_ready_isr: "msk \<noteq> 0 \<Longrightarrow> flag_recurs hw_ready USART3_ISR msk"
  by (auto simp: flag_recurs_def all_ones_and)

lemma txe_recurs_hw_ready: "txe_recurs hw_ready sample_header"
  by (simp add: txe_recurs_def flag_recurs_hw_ready_isr)

lemma map_ucast_of_char:
  "map (\<lambda>b. Write USART3_TDR (ucast b)) (map (of_char :: char \<Rightarrow> u8) s)
     = map (\<lambda>c. Write USART3_TDR (of_char c)) s"
  by (simp add: ucast_of_char)

lemma decimal_max: "decimal 4294967295 = ''4294967295''"
  by (simp add: decimal.simps digit_char_def)

lemma set_cells: "length (filter (\<lambda>c. c \<noteq> None) (map Some xs @ replicate k None)) = length xs"
  by (induction xs) simp_all

lemma bit_three_int: "bit (3 :: int) n \<longleftrightarrow> n < 2"
proof -
  have "(3 :: int) = mask 2" by (simp add: mask_eq_exp_minus_1)
  then show ?thesis by (simp only: bit_mask_iff) simp
qed

lemma bit_field2: "bit (field2 r p) n \<longleftrightarrow> n < 2 \<and> bit r (2 * p + n)"
  by (auto simp: field2_def bit_and_iff bit_drop_bit_eq bit_three_int)

lemma bit_field_one: "bit (push_bit s (1 :: u32)) k \<longleftrightarrow> k < 32 \<and> k = s"
  by (auto simp: bit_exp_iff)

lemma bit_field_mask: "bit (push_bit (2 * p) (3 :: u32)) k \<longleftrightarrow> k < 32 \<and> (k = 2 * p \<or> k = 2 * p + 1)"
proof -
  have "bit (push_bit (2 * p) (3 :: u32)) k \<longleftrightarrow> k < 32 \<and> 2 * p \<le> k \<and> k - 2 * p < 2"
    by (auto simp: bit_push_bit_iff bit_three_int)
  also have "\<dots> \<longleftrightarrow> k < 32 \<and> (k = 2 * p \<or> k = 2 * p + 1)" by arith
  finally show ?thesis .
qed

lemma bit_one_u32: "bit (1 :: u32) n \<longleftrightarrow> n = 0"
  by (simp add: bit_1_iff)

lemma bit_set_01:
  "bit ((r AND NOT (push_bit (2 * p) 3)) OR push_bit (2 * p) (1 :: u32)) k \<longleftrightarrow>
     (if k < 32 \<and> k = 2 * p then True else if k < 32 \<and> k = 2 * p + 1 then False else bit r k)"
  unfolding bit_or_iff bit_and_iff bit_not_iff bit_field_mask bit_field_one
  by (auto dest: bit_imp_le_length)

lemma bit_clear_field:
  "bit (r AND NOT (push_bit (2 * p) (3 :: u32))) k \<longleftrightarrow>
     (if k < 32 \<and> (k = 2 * p \<or> k = 2 * p + 1) then False else bit r k)"
  unfolding bit_or_iff bit_and_iff bit_not_iff bit_field_mask bit_field_one
  by (auto dest: bit_imp_le_length)

lemma field2_set_01:
  "p < 16 \<Longrightarrow> field2 ((r AND NOT (push_bit (2 * p) 3)) OR push_bit (2 * p) 1) p = 1"
  by (rule bit_word_eqI) (auto simp only: bit_field2 bit_set_01 bit_one_u32 split: if_splits)

lemma field2_clear:
  "p < 16 \<Longrightarrow> field2 (r AND NOT (push_bit (2 * p) 3)) p = 0"
  by (rule bit_word_eqI) (auto simp only: bit_field2 bit_clear_field bit_0_eq split: if_splits)

lemma field2_set_other:
  "p' \<noteq> p \<Longrightarrow> field2 ((r AND NOT (push_bit (2 * p) 3)) OR push_bit (2 * p) 1) p' = field2 r p'"
proof (rule bit_word_eqI)
  fix n assume "p' \<noteq> p"
  then have "n < 2 \<Longrightarrow> 2 * p' + n \<noteq> 2 * p \<and> 2 * p' + n \<noteq> 2 * p + 1" by presburger
  then show "bit (field2 ((r AND NOT (push_bit (2 * p) 3)) OR push_bit (2 * p) 1) p') n
               = bit (field2 r p') n"
    unfolding bit_field2 bit_set_01 by auto
qed

lemma field2_clear_other:
  "p' \<noteq> p \<Longrightarrow> field2 (r AND NOT (push_bit (2 * p) 3)) p' = field2 r p'"
proof (rule bit_word_eqI)
  fix n assume "p' \<noteq> p"
  then have "n < 2 \<Longrightarrow> 2 * p' + n \<noteq> 2 * p \<and> 2 * p' + n \<noteq> 2 * p + 1" by presburger
  then show "bit (field2 (r AND NOT (push_bit (2 * p) 3)) p') n = bit (field2 r p') n"
    unfolding bit_field2 bit_clear_field by auto
qed

lemma bit_clear_one:
  "bit (r AND NOT (push_bit p (1 :: u32))) k \<longleftrightarrow> bit r k \<and> k \<noteq> p"
  unfolding bit_and_iff bit_not_iff bit_field_one
  by (auto dest: bit_imp_le_length)

lemma regs_write_reg [simp]: "regs (write_reg r v m) = reg_store r v (regs m)"
  by (simp add: write_reg_def)

lemma trace_write_reg [simp]: "trace (write_reg r v m) = trace m @ [Write r v]"
  by (simp add: write_reg_def)

lemma ticks_write_reg [simp]: "ticks (write_reg r v m) = ticks m"
  by (simp add: write_reg_def)

lemma stress_buffer_write_reg [simp]: "stress_buffer (write_reg r v m) = stress_buffer m"
  by (simp add: write_reg_def)

lemma run_Nil [simp]: "run [] m = m"
  by (simp add: run_def)

lemma run_Cons [simp]: "run (stmt # stmts) m = run stmts (stmt m)"
  by (simp add: run_def)

lemma unat_pin_shift: "unat (pin :: u32) < 16 \<Longrightarrow> unat (pin * 2) = 2 * unat pin"
proof -
  assume "unat pin < 16"
  then have "unat pin * unat (2 :: u32) < 2 ^ LENGTH(32)" by simp
  then have "unat (pin * 2) = unat pin * unat (2 :: u32)" by (simp only: unat_mult_lem)
  then show ?thesis by simp
qed

lemma gpio_config_output_regs:
  assumes "unat pin < 16"
  shows "\<exists>m'. gpio_config_output gpio pin m = Some m'
     \<and> regs m' (GPIO_MODER gpio) = (regs m (GPIO_MODER gpio) AND NOT (push_bit (2 * unat pin) 3)) OR push_bit (2 * unat pin) 1
     \<and> regs m' (GPIO_OTYPER gpio) = regs m (GPIO_OTYPER gpio) AND NOT (push_bit (unat pin) 1)
     \<and> regs m' (GPIO_OSPEEDR gpio) = (regs m (GPIO_OSPEEDR gpio) AND NOT (push_bit (2 * unat pin) 3)) OR push_bit (2 * unat pin) 1
     \<and> regs m' (GPIO_PUPDR gpio) = regs m (GPIO_PUPDR gpio) AND NOT (push_bit (2 * unat pin) 3)"
  using assms
  by (simp add: gpio_config_output_def Let_def unat_pin_shift clear_bits_def read_reg_def)

lemma gpio_config_input_pullup_regs:
  assumes "unat pin < 16"
  shows "\<exists>m'. gpio_config_input_pullup gpio pin m = Some m'
     \<and> regs m' (GPIO_MODER gpio) = regs m (GPIO_MODER gpio) AND NOT (push_bit (2 * unat pin) 3)
     \<and> regs m' (GPIO_OTYPER gpio) = regs m (GPIO_OTYPER gpio)
     \<and> regs m' (GPIO_OSPEEDR gpio) = regs m (GPIO_OSPEEDR gpio)
     \<and> regs m' (GPIO_PUPDR gpio) = (regs m (GPIO_PUPDR gpio) AND NOT (push_bit (2 * unat pin) 3)) OR push_bit (2 * unat pin) 1"
  using assms
  by (simp add: gpio_config_input_pullup_def Let_def unat_pin_shift clear_bits_def read_reg_def)

lemma gpio_config_output_undefined:
  "16 \<le> unat pin \<Longrightarrow> gpio_config_output gpio pin m = None"
proof (cases "32 \<le> unat pin")
  case True
  then show ?thesis by (simp add: gpio_config_output_def)
next
  case False
  assume "16 \<le> unat pin"
  from False have "unat pin * unat (2 :: u32) < 2 ^ LENGTH(32)" by simp
  then have "unat (pin * 2) = unat pin * unat (2 :: u32)" by (simp only: unat_mult_lem)
  with \<open>16 \<le> unat pin\<close> have "32 \<le> unat (pin * 2)" by simp
  then show ?thesis by (simp add: gpio_config_output_def)
qed

lemma bit_bsrr_effect:
  "bit (bsrr_effect odr v) k \<longleftrightarrow> (k < 16 \<and> bit v k) \<or> (bit odr k \<and> \<not> bit v (16 + k))"
proof -
  have "(0xFFFF :: u32) = mask 16" by (simp add: mask_eq_exp_minus_1)
  then have "bsrr_effect odr v = (odr AND NOT (drop_bit 16 v)) OR take_bit 16 v"
    by (simp only: bsrr_effect_def take_bit_eq_mask)
  then have "bit (bsrr_effect odr v) k \<longleftrightarrow> bit ((odr AND NOT (drop_bit 16 v)) OR take_bit 16 v) k"
    by simp
  also have "\<dots> \<longleftrightarrow> (k < 16 \<and> bit v k) \<or> (bit odr k \<and> \<not> bit v (16 + k))"
    by (auto simp: bit_or_iff bit_and_iff bit_not_iff bit_drop_bit_eq bit_take_bit_iff
             dest: bit_imp_le_length)
  finally show ?thesis .
qed

lemma bsrr_set_pin:
  "n < 16 \<Longrightarrow> bit (bsrr_effect odr (push_bit n 1)) k \<longleftrightarrow> (if k = n then True else bit odr k)"
  unfolding bit_bsrr_effect bit_field_one by auto

lemma bsrr_reset_pin:
  "n < 16 \<Longrightarrow> bit (bsrr_effect odr (push_bit (n + 16) 1)) k \<longleftrightarrow> (if k = n then False else bit odr k)"
  unfolding bit_bsrr_effect bit_field_one by auto

lemma bsrr_pin:
  "n < 16 \<Longrightarrow>
   bit (bsrr_effect odr (if on \<noteq> (0 :: u32) then push_bit n 1 else push_bit (n + 16) 1)) k
     = (if k = n then on \<noteq> 0 else bit odr k)"
  by (simp only: bsrr_set_pin bsrr_reset_pin split: if_splits) simp

lemma led_pins:
  "unat LED1_PIN = 0" "unat LED2_PIN = 4" "unat LED3_PIN = 4"
  "unat (LED1_PIN + 16) = 0 + 16" "unat (LED2_PIN + 16) = 4 + 16" "unat (LED3_PIN + 16) = 4 + 16"
  by (simp_all add: LED1_PIN_def LED2_PIN_def LED3_PIN_def)

lemma led_write_trace:
  "trace (led_write on m) = trace m @
     [Write (GPIO_BSRR GPIOB) (if on \<noteq> 0 then push_bit 0 1 else push_bit (0 + 16) 1),
      Write (GPIO_BSRR GPIOF) (if on \<noteq> 0 then push_bit 4 1 else push_bit (4 + 16) 1),
      Write (GPIO_BSRR GPIOG) (if on \<noteq> 0 then push_bit 4 1 else push_bit (4 + 16) 1)]"
  by (simp add: led_write_def led_pins)

lemma led_write_odr:
  "regs (led_write on m) (GPIO_ODR gpio) =
     (if gpio = GPIOB then bsrr_effect (regs m (GPIO_ODR GPIOB)) (if on \<noteq> 0 then push_bit 0 1 else push_bit (0 + 16) 1)
      else if gpio = GPIOF then bsrr_effect (regs m (GPIO_ODR GPIOF)) (if on \<noteq> 0 then push_bit 4 1 else push_bit (4 + 16) 1)
      else if gpio = GPIOG then bsrr_effect (regs m (GPIO_ODR GPIOG)) (if on \<noteq> 0 then push_bit 4 1 else push_bit (4 + 16) 1)
      else regs m (GPIO_ODR gpio))"
  by (simp add: led_write_def led_pins)

lemma sends_to_return: "sends_to (\<lambda>m. Some (out m)) [] out"
  unfolding sends_to_def
proof
  fix m :: machine
  have "Some (out m) = Some (out (send [] (m\<lparr>ticks := ticks m\<rparr>)))" by simp
  then show "\<exists>t\<ge>ticks m. Some (out m) = Some (out (send [] (m\<lparr>ticks := t\<rparr>)))" by blast
qed

lemma sends_to_bind:
  assumes f: "sends_to f a (\<lambda>m. m)" and g: "sends_to g b out"
  shows "sends_to (\<lambda>m. Option.bind (f m) g) (a @ b) out"
  unfolding sends_to_def
proof
  fix m :: machine
  from f obtain t1 where t1: "ticks m \<le> t1" "f m = Some (send a (m\<lparr>ticks := t1\<rparr>))"
    unfolding sends_to_def by blast
  let ?m1 = "send a (m\<lparr>ticks := t1\<rparr>)"
  from g obtain t2 where t2: "ticks ?m1 \<le> t2" "g ?m1 = Some (out (send b (?m1\<lparr>ticks := t2\<rparr>)))"
    unfolding sends_to_def by blast
  have "?m1\<lparr>ticks := t2\<rparr> = send a (m\<lparr>ticks := t2\<rparr>)"
    by (simp add: send_ticks_update)
  then have "Option.bind (f m) g = Some (out (send (a @ b) (m\<lparr>ticks := t2\<rparr>)))"
    using t1 t2 by (simp add: send_append)
  moreover have "ticks m \<le> t2" using t1 t2 by simp
  ultimately show "\<exists>t\<ge>ticks m. Option.bind (f m) g = Some (out (send (a @ b) (m\<lparr>ticks := t\<rparr>)))"
    by blast
qed

lemma uart3_write_str_sends:
  "txe_recurs hw h \<Longrightarrow> sends_to (uart3_write_str hw h s) (map of_char s) (\<lambda>m. m)"
  unfolding sends_to_def using uart3_write_str_send by blast

lemma uart3_write_u32_dec_sends:
  "txe_recurs hw h \<Longrightarrow> sends_to (uart3_write_u32_dec hw h v) (map of_char (decimal (unat v))) (\<lambda>m. m)"
  unfolding sends_to_def using uart3_write_u32_dec_send by blast

lemma delay_cycles_id: "delay_cycles cycles m = m"
  by (induction cycles m rule: delay_cycles.induct) (subst delay_cycles.simps, simp)

lemma ticks_led_write [simp]: "ticks (led_write on m) = ticks m"
  by (simp add: led_write_def)

lemma stress_buffer_led_write [simp]: "stress_buffer (led_write on m) = stress_buffer m"
  by (simp add: led_write_def)

lemma main_iter_send:
  assumes "txe_recurs hw h"
  shows "\<exists>t>ticks m. main_iter hw h (blink_count, led_on, m) =
           Some (blink_count + 1, led_on XOR 1,
                 send (map of_char (status_line blink_count (led_on XOR 1)
                                      (drop_bit 13 (hw (ticks m) (GPIO_IDR GPIOC)) AND 1)))
                      ((led_write (led_on XOR 1) m)\<lparr>ticks := t\<rparr>))"
proof -
  let ?led = "led_on XOR 1"
  let ?btn = "drop_bit 13 (hw (ticks m) (GPIO_IDR GPIOC)) AND 1"
  let ?out = "\<lambda>m. (blink_count + 1, ?led, m)"
  note str = uart3_write_str_sends[OF assms] and dec = uart3_write_u32_dec_sends[OF assms]
  have "sends_to (\<lambda>m. do {
     m \<leftarrow> uart3_write_str hw h ''BLINK '' m;
     m \<leftarrow> uart3_write_u32_dec hw h blink_count m;
     m \<leftarrow> uart3_write_str hw h '' PB0='' m;
     m \<leftarrow> uart3_write_u32_dec hw h ?led m;
     m \<leftarrow> uart3_write_str hw h '' PF4='' m;
     m \<leftarrow> uart3_write_u32_dec hw h ?led m;
     m \<leftarrow> uart3_write_str hw h '' PG4='' m;
     m \<leftarrow> uart3_write_u32_dec hw h ?led m;
     m \<leftarrow> uart3_write_str hw h '' BTN13='' m;
     m \<leftarrow> uart3_write_u32_dec hw h ?btn m;
     m \<leftarrow> uart3_write_str hw h [CR, LF] m;
     Some (blink_count + 1, ?led, m) })
    (map of_char ''BLINK '' @ map of_char (decimal (unat blink_count))
      @ map of_char '' PB0='' @ map of_char (decimal (unat ?led))
      @ map of_char '' PF4='' @ map of_char (decimal (unat ?led))
      @ map of_char '' PG4='' @ map of_char (decimal (unat ?led))
      @ map of_char '' BTN13='' @ map of_char (decimal (unat ?btn))
      @ map of_char [CR, LF] @ []) ?out"
    by (intro sends_to_bind sends_to_return str dec)
  then have s: "sends_to (\<lambda>m. do {
     m \<leftarrow> uart3_write_str hw h ''BLINK '' m;
     m \<leftarrow> uart3_write_u32_dec hw h blink_count m;
     m \<leftarrow> uart3_write_str hw h '' PB0='' m;
     m \<leftarrow> uart3_write_u32_dec hw h ?led m;
     m \<leftarrow> uart3_write_str hw h '' PF4='' m;
     m \<leftarrow> uart3_write_u32_dec hw h ?led m;
     m \<leftarrow> uart3_write_str hw h '' PG4='' m;
     m \<leftarrow> uart3_write_u32_dec hw h ?led m;
     m \<leftarrow> uart3_write_str hw h '' BTN13='' m;
     m \<leftarrow> uart3_write_u32_dec hw h ?btn m;
     m \<leftarrow> uart3_write_str hw h [CR, LF] m;
     Some (blink_count + 1, ?led, m) })
    (map of_char (status_line blink_count ?led ?btn)) ?out"
    by (simp only: status_line_def map_append append_Nil2)
  let ?m1 = "(led_write ?led m)\<lparr>ticks := Suc (ticks m)\<rparr>"
  from s[unfolded sends_to_def, rule_format, of ?m1] obtain t where
    t: "ticks ?m1 \<le> t" and r: "do {
     m \<leftarrow> uart3_write_str hw h ''BLINK '' ?m1;
     m \<leftarrow> uart3_write_u32_dec hw h blink_count m;
     m \<leftarrow> uart3_write_str hw h '' PB0='' m;
     m \<leftarrow> uart3_write_u32_dec hw h ?led m;
     m \<leftarrow> uart3_write_str hw h '' PF4='' m;
     m \<leftarrow> uart3_write_u32_dec hw h ?led m;
     m \<leftarrow> uart3_write_str hw h '' PG4='' m;
     m \<leftarrow> uart3_write_u32_dec hw h ?led m;
     m \<leftarrow> uart3_write_str hw h '' BTN13='' m;
     m \<leftarrow> uart3_write_u32_dec hw h ?btn m;
     m \<leftarrow> uart3_write_str hw h [CR, LF] m;
     Some (blink_count + 1, ?led, m) }
     = Some (?out (send (map of_char (status_line blink_count ?led ?btn)) (?m1\<lparr>ticks := t\<rparr>)))"
    by blast
  have "main_iter hw h (blink_count, led_on, m) =
           Some (blink_count + 1, ?led,
                 send (map of_char (status_line blink_count ?led ?btn))
                      ((led_write ?led m)\<lparr>ticks := t\<rparr>))"
    using r by (simp add: main_iter_def read_status_def BTN_PIN_def delay_cycles_id Let_def
                     del: uart3_write_str.simps)
  moreover have "ticks m < t" using t by simp
  ultimately show ?thesis by blast
qed

lemma uart_tx_Nil [simp]: "uart_tx [] = []"
  by (simp add: uart_tx_def)

lemma uart_tx_append [simp]: "uart_tx (a @ b) = uart_tx a @ uart_tx b"
  by (simp add: uart_tx_def)

lemma uart_tx_Cons [simp]: "uart_tx (e # tr) = tx_char e @ uart_tx tr"
  by (simp add: uart_tx_def)

lemma unat_of_char_u32: "unat (of_char c :: u32) = of_char c"
proof -
  have "(of_char c :: nat) < 2 ^ 8" by simp
  then have "(of_char c :: nat) < 2 ^ 32" by (rule less_trans) simp
  then have "take_bit 32 (of_char c :: nat) = of_char c"
    by (simp only: take_bit_nat_eq_self)
  then have "unat (of_nat (of_char c) :: u32) = of_char c"
    by (simp add: unsigned_of_nat)
  then show ?thesis by (simp only: of_nat_of_char)
qed

lemma uart_tx_chars:
  "uart_tx (map (\<lambda>c. Write USART3_TDR (of_char c)) s) = s"
  by (induction s) (simp_all add: unat_of_char_u32)

lemma uart_tx_send:
  "uart_tx (trace (send (map of_char s) m)) = uart_tx (trace m) @ s"
  by (simp add: trace_send comp_def ucast_of_char uart_tx_chars)

lemma quiet_refl [simp]: "quiet m m"
  by (simp add: quiet_def)

lemma quiet_trans: "quiet a b \<Longrightarrow> quiet b c \<Longrightarrow> quiet a c"
  by (simp add: quiet_def)

lemma quiet_write_reg:
  "r \<noteq> USART3_TDR \<Longrightarrow> r \<noteq> UART_DR \<Longrightarrow> quiet m (write_reg r v m)"
  by (simp add: quiet_def)

lemma quiet_set_bits:
  "r \<noteq> USART3_TDR \<Longrightarrow> r \<noteq> UART_DR \<Longrightarrow> quiet m (set_bits r v m)"
  by (simp add: set_bits_def quiet_write_reg)

lemma quiet_clear_bits:
  "r \<noteq> USART3_TDR \<Longrightarrow> r \<noteq> UART_DR \<Longrightarrow> quiet m (clear_bits r v m)"
  by (simp add: clear_bits_def quiet_write_reg)

lemma quiet_run_Cons: "quiet m (stmt m) \<Longrightarrow> quiet (stmt m) (run stmts (stmt m)) \<Longrightarrow> quiet m (run (stmt # stmts) m)"
  by (simp add: quiet_def)

lemma quiet_run:
  "(\<And>stmt m. stmt \<in> set stmts \<Longrightarrow> quiet m (stmt m)) \<Longrightarrow> quiet m (run stmts m)"
proof (induction stmts arbitrary: m)
  case Nil
  show ?case by simp
next
  case (Cons stmt stmts)
  have "quiet m (stmt m)" using Cons.prems by simp
  moreover have "quiet (stmt m) (run stmts (stmt m))" using Cons by simp
  ultimately show ?case by (simp add: quiet_def)
qed

lemma quiet_uart3_init: "quiet m (uart3_init h m)"
  unfolding uart3_init_def
  by (rule quiet_run) (auto simp: quiet_set_bits quiet_clear_bits quiet_write_reg)

lemma quiet_gpio_config_output:
  "unat pin < 16 \<Longrightarrow> \<exists>m'. gpio_config_output gpio pin m = Some m' \<and> quiet m m'"
  by (simp add: gpio_config_output_def Let_def unat_pin_shift quiet_def clear_bits_def)

lemma quiet_gpio_config_input_pullup:
  "unat pin < 16 \<Longrightarrow> \<exists>m'. gpio_config_input_pullup gpio pin m = Some m' \<and> quiet m m'"
  by (simp add: gpio_config_input_pullup_def Let_def unat_pin_shift quiet_def clear_bits_def)

lemma main_init_send:
  assumes "txe_recurs hw h"
  shows "\<exists>m0 t. main_init hw h m =
            Some (send (map of_char (''H563-BLINK-UART'' @ [CR, LF])) (m0\<lparr>ticks := t\<rparr>))
          \<and> ticks m \<le> t \<and> quiet m m0"
proof -
  let ?m1 = "set_bits RCC_AHB2ENR
               (h RCC_AHB2ENR_GPIOBEN OR h RCC_AHB2ENR_GPIOCEN OR h RCC_AHB2ENR_GPIOFEN
                  OR h RCC_AHB2ENR_GPIOGEN) m"
  have q1: "quiet m ?m1" by (simp add: quiet_set_bits)
  have pins: "unat LED1_PIN < 16" "unat LED2_PIN < 16" "unat LED3_PIN < 16" "unat BTN_PIN < 16"
    by (simp_all add: LED1_PIN_def LED2_PIN_def LED3_PIN_def BTN_PIN_def)
  from quiet_gpio_config_output[OF pins(1)] obtain m2 where
    m2: "gpio_config_output GPIOB LED1_PIN ?m1 = Some m2" "quiet ?m1 m2" by blast
  from quiet_gpio_config_output[OF pins(2)] obtain m3 where
    m3: "gpio_config_output GPIOF LED2_PIN m2 = Some m3" "quiet m2 m3" by blast
  from quiet_gpio_config_output[OF pins(3)] obtain m4 where
    m4: "gpio_config_output GPIOG LED3_PIN m3 = Some m4" "quiet m3 m4" by blast
  from quiet_gpio_config_input_pullup[OF pins(4)] obtain m5 where
    m5: "gpio_config_input_pullup GPIOC BTN_PIN m4 = Some m5" "quiet m4 m5" by blast
  let ?m6 = "uart3_init h m5"
  have q: "quiet m ?m6"
    using q1 m2(2) m3(2) m4(2) m5(2) quiet_uart3_init[of m5 h] by (simp add: quiet_def)
  from uart3_write_str_send[OF assms, of ?m6 "''H563-BLINK-UART'' @ [CR, LF]"] obtain t where
    t: "ticks ?m6 \<le> t"
       "uart3_write_str hw h (''H563-BLINK-UART'' @ [CR, LF]) ?m6
          = Some (send (map of_char (''H563-BLINK-UART'' @ [CR, LF])) (?m6\<lparr>ticks := t\<rparr>))"
    by blast
  have "main_init hw h m = Some (send (map of_char (''H563-BLINK-UART'' @ [CR, LF])) (?m6\<lparr>ticks := t\<rparr>))"
    using m2(1) m3(1) m4(1) m5(1) t(2)
    by (simp add: main_init_def Let_def del: uart3_write_str.simps)
  moreover have "ticks m \<le> t" using t(1) q by (simp add: quiet_def)
  ultimately show ?thesis using q by blast
qed

lemma button_low: "\<not> bit (w :: u32) 13 \<Longrightarrow> drop_bit 13 w AND 1 = 0"
  by (rule bit_word_eqI) (auto simp: bit_and_iff bit_drop_bit_eq bit_1_iff intro!: gr0I)

lemma status_line_first:
  "status_line 0 1 0 = ''BLINK 0 PB0=1 PF4=1 PG4=1 BTN13=0'' @ [CR, LF]"
  by (simp add: status_line_def decimal.simps digit_char_def)

lemma trace_ticks_update [simp]: "trace (m\<lparr>ticks := t\<rparr>) = trace m"
  by simp

lemma main_one_round:
  "main hw h 1 m = Option.bind (main_init hw h m) (\<lambda>mi. main_iter hw h (0, 0, mi))"
proof -
  have "main_loop hw h 1 st = main_iter hw h st" for st
    by (simp add: numeral_eq_Suc split: option.splits)
  then show ?thesis by (simp add: main_def)
qed

lemma crlf_lines_line:
  "LF \<notin> set s \<Longrightarrow> CR \<notin> set s \<Longrightarrow> crlf_lines (s @ CR # LF # t) = crlf_lines t"
proof (induction s)
  case Nil
  then show ?case by simp
next
  case (Cons a s)
  then show ?case by (cases s) auto
qed

lemma crlf_lines_append: "crlf_lines a \<Longrightarrow> crlf_lines b \<Longrightarrow> crlf_lines (a @ b)"
  by (induction a rule: crlf_lines.induct) (auto split: if_splits)

lemma decimal_no_CR: "CR \<notin> set (decimal n)"
  using decimal_digits[of n] by (auto simp: CR_def)

lemma decimal_no_LF: "LF \<notin> set (decimal n)"
  using decimal_digits[of n] by (auto simp: LF_def)

lemma crlf_lines_status_line: "crlf_lines (status_line blink_count led_on btn)"
proof -
  let ?s = "''BLINK '' @ decimal (unat blink_count) @ '' PB0='' @ decimal (unat led_on)
       @ '' PF4='' @ decimal (unat led_on) @ '' PG4='' @ decimal (unat led_on)
       @ '' BTN13='' @ decimal (unat btn)"
  have "LF \<notin> set ?s" "CR \<notin> set ?s"
    by (simp_all add: decimal_no_CR decimal_no_LF) (simp_all add: CR_def LF_def)
  from crlf_lines_line[OF this, of "[]"] show ?thesis
    by (simp add: status_line_def)
qed

lemma main_loop_lines:
  assumes "txe_recurs hw h"
  shows "\<exists>bc led m' L. main_loop hw h n (blink_count, led_on, m) = Some (bc, led, m')
           \<and> uart_tx (trace m') = uart_tx (trace m) @ L \<and> crlf_lines L"
proof (induction n arbitrary: blink_count led_on m)
  case 0
  have "main_loop hw h 0 (blink_count, led_on, m) = Some (blink_count, led_on, m)
          \<and> uart_tx (trace m) = uart_tx (trace m) @ [] \<and> crlf_lines []" by simp
  then show ?case by blast
next
  case (Suc n)
  let ?btn = "drop_bit 13 (hw (ticks m) (GPIO_IDR GPIOC)) AND 1"
  let ?led = "led_on XOR 1"
  from main_iter_send[OF assms, of m blink_count led_on] obtain t where
    it: "main_iter hw h (blink_count, led_on, m) =
           Some (blink_count + 1, ?led,
                 send (map of_char (status_line blink_count ?led ?btn)) ((led_write ?led m)\<lparr>ticks := t\<rparr>))"
    by blast
  let ?m1 = "send (map of_char (status_line blink_count ?led ?btn)) ((led_write ?led m)\<lparr>ticks := t\<rparr>)"
  have tx1: "uart_tx (trace ?m1) = uart_tx (trace m) @ status_line blink_count ?led ?btn"
    by (simp add: uart_tx_send led_write_trace)
  from Suc[of "blink_count + 1" ?led ?m1] obtain bc led m' L where
    r: "main_loop hw h n (blink_count + 1, ?led, ?m1) = Some (bc, led, m')"
       "uart_tx (trace m') = uart_tx (trace ?m1) @ L" "crlf_lines L"
    by blast
  have "main_loop hw h (Suc n) (blink_count, led_on, m) = Some (bc, led, m')"
    using it r(1) by simp
  moreover have "uart_tx (trace m') = uart_tx (trace m) @ (status_line blink_count ?led ?btn @ L)"
    using r(2) tx1 by simp
  moreover have "crlf_lines (status_line blink_count ?led ?btn @ L)"
    using crlf_lines_status_line r(3) by (rule crlf_lines_append)
  ultimately show ?case by blast
qed

lemma main_lines:
  assumes "txe_recurs hw h"
  shows "\<exists>bc led m' L. main hw h n m = Some (bc, led, m')
           \<and> uart_tx (trace m') = uart_tx (trace m) @ L \<and> crlf_lines L"
proof -
  from main_init_send[OF assms, of m] obtain m0 t where
    i: "main_init hw h m = Some (send (map of_char (''H563-BLINK-UART'' @ [CR, LF])) (m0\<lparr>ticks := t\<rparr>))"
       "quiet m m0"
    by blast
  let ?mi = "send (map of_char (''H563-BLINK-UART'' @ [CR, LF])) (m0\<lparr>ticks := t\<rparr>)"
  have txi: "uart_tx (trace ?mi) = uart_tx (trace m) @ (''H563-BLINK-UART'' @ [CR, LF])"
    using i(2) by (simp only: uart_tx_send) (simp add: quiet_def)
  from main_loop_lines[OF assms, of n 0 0 ?mi] obtain bc led m' L where
    r: "main_loop hw h n (0, 0, ?mi) = Some (bc, led, m')"
       "uart_tx (trace m') = uart_tx (trace ?mi) @ L" "crlf_lines L"
    by blast
  have "main hw h n m = Some (bc, led, m')" using i(1) r(1) by (simp add: main_def)
  moreover have "uart_tx (trace m') = uart_tx (trace m) @ ((''H563-BLINK-UART'' @ [CR, LF]) @ L)"
    using r(2) txi by simp
  moreover have "crlf_lines (''H563-BLINK-UART'' @ [CR, LF])"
    using crlf_lines_line[of "''H563-BLINK-UART''" "[]"] by (simp add: CR_def LF_def)
  then have "crlf_lines ((''H563-BLINK-UART'' @ [CR, LF]) @ L)"
    using r(3) by (rule crlf_lines_append)
  ultimately show ?thesis by blast
qed

lemma hil_uart3_write_str_eq: "hil_uart3_write_str hw h s m = uart3_write_str hw h s m"
  by (induction s arbitrary: m) (simp_all add: uart3_write_byte_def split: option.splits)

lemma wait_flag_Some_flag:
  "wait_flag hw r msk t = Some y \<Longrightarrow> \<exists>t'. hw t' r AND msk \<noteq> 0"
proof (rule wait_flag.raw_induct[where P = "\<lambda>hw r msk t y. \<exists>t'. hw t' r AND msk \<noteq> 0"])
  fix wait_flag' :: "hardware \<Rightarrow> reg \<Rightarrow> u32 \<Rightarrow> nat \<Rightarrow> nat option"
    and hw r msk t y
  assume IH: "\<And>hw r msk t y. wait_flag' hw r msk t = Some y \<Longrightarrow> \<exists>t'. hw t' r AND msk \<noteq> 0"
    and step: "(if hw t r AND msk = 0 then wait_flag' hw r msk (Suc t) else Some (Suc t)) = Some y"
  show "\<exists>t'. hw t' r AND msk \<noteq> 0"
  proof (cases "hw t r AND msk = 0")
    case True
    with step have "wait_flag' hw r msk (Suc t) = Some y" by simp
    then show ?thesis by (rule IH)
  next
    case False
    then show ?thesis by blast
  qed
qed

lemma wait_flag_never:
  assumes "\<forall>t. hw t r AND msk = 0"
  shows "wait_flag hw r msk t = None"
proof (cases "wait_flag hw r msk t")
  case None
  then show ?thesis .
next
  case (Some y)
  from wait_flag_Some_flag[OF this] assms show ?thesis by blast
qed

lemma spin_forever_Some: "spin_forever m = Some y \<Longrightarrow> False"
  by (rule spin_forever.raw_induct[where P = "\<lambda>m y. False"])

lemma spin_forever_None: "spin_forever m = None"
  using spin_forever_Some[of m] by (cases "spin_forever m") auto

lemma pattern_byte: "(ucast ((i :: u32) AND 0xFF) :: u8) = of_nat (unat i)"
proof -
  have "(0xFF :: u32) = mask 8" by (simp add: mask_eq_exp_minus_1)
  then have "(ucast (i AND 0xFF) :: u8) = ucast (take_bit 8 i)"
    by (simp only: take_bit_eq_mask)
  also have "\<dots> = ucast i"
    by (rule bit_word_eqI) (auto simp: bit_ucast_iff bit_take_bit_iff)
  finally show ?thesis by simp
qed

lemma fill_loop_eq:
  "fill_loop i m =
     m\<lparr>stress_buffer := fold (\<lambda>k b. b[k := of_nat k]) [unat i..<256] (stress_buffer m),
       trace := trace m @ map (\<lambda>k. Store k (of_nat k)) [unat i..<256]\<rparr>"
proof (induction i m rule: fill_loop.induct)
  case (1 i m)
  show ?case
  proof (cases "i < STRESS_BUFFER_SIZE")
    case True
    then have lt: "unat i < 256" by (simp add: STRESS_BUFFER_SIZE_def word_less_nat_alt)
    then have "unat i + unat (1 :: u32) < 2 ^ LENGTH(32)" by simp
    then have "unat (i + 1) = unat i + unat (1 :: u32)" by (simp only: unat_add_lem)
    then have ui: "unat (i + 1) = Suc (unat i)" by simp
    have upt: "[unat i..<256] = unat i # [Suc (unat i)..<256]"
      using lt by (simp add: upt_conv_Cons)
    show ?thesis
      using 1[OF True] True
      by (subst fill_loop.simps) (simp add: ui upt store_buffer_def pattern_byte)
  next
    case False
    then have "256 \<le> unat i" by (simp add: STRESS_BUFFER_SIZE_def word_less_nat_alt)
    with False show ?thesis by (subst fill_loop.simps) simp
  qed
qed

lemma fold_fill:
  "n \<le> length b \<Longrightarrow> fold (\<lambda>k b. b[k := f k]) [0..<n] b = map f [0..<n] @ drop n b"
proof (induction n)
  case 0
  then show ?case by simp
next
  case (Suc n)
  then have "n < length b" by simp
  then have "(map f [0..<n] @ drop n b)[n := f n] = map f [0..<n] @ f n # drop (Suc n) b"
    by (simp add: list_update_append Cons_nth_drop_Suc[symmetric] )
  with Suc show ?case by simp
qed

lemma fill_loop_buffer:
  "length (stress_buffer m) = 256 \<Longrightarrow> stress_buffer (fill_loop 0 m) = map of_nat [0..<256]"
  using fold_fill[of 256 "stress_buffer m" of_nat] by (simp add: fill_loop_eq)

lemma fill_loop_trace:
  "trace (fill_loop 0 m) = trace m @ map (\<lambda>k. Store k (of_nat k)) [0..<256]"
  by (simp add: fill_loop_eq)

lemma fill_loop_regs [simp]: "regs (fill_loop i m) = regs m"
  by (simp add: fill_loop_eq)

lemma fill_loop_ticks [simp]: "ticks (fill_loop i m) = ticks m"
  by (simp add: fill_loop_eq)

lemma hil_uart3_init_trace:
  "trace (hil_uart3_init h m) = trace m @ hil_uart3_init_stores h (regs m)"
  by (simp add: hil_uart3_init_def hil_uart3_init_stores_def set_bits_def clear_bits_def read_reg_def)

lemma hil_uart3_init_ticks [simp]: "ticks (hil_uart3_init h m) = ticks m"
  by (simp add: hil_uart3_init_def set_bits_def clear_bits_def)

lemma hil_uart3_init_buffer [simp]: "stress_buffer (hil_uart3_init h m) = stress_buffer m"
  by (simp add: hil_uart3_init_def set_bits_def clear_bits_def)

lemma hil_uart3_init_regs:
  "regs (hil_uart3_init h m) RCC_AHB1ENR = regs m RCC_AHB1ENR"
  "regs (hil_uart3_init h m) USART3_CR2 = regs m USART3_CR2"
  "regs (hil_uart3_init h m) USART3_CR1 = h USART_CR1_TE OR h USART_CR1_UE"
  "regs (hil_uart3_init h m) USART3_CR3 = regs m USART3_CR3 OR h USART_CR3_DMAT"
  "regs (hil_uart3_init h m) DMA1_Channel1_CCR = regs m DMA1_Channel1_CCR"
  by (simp_all add: hil_uart3_init_def set_bits_def clear_bits_def read_reg_def)

lemma dma1_init_trace:
  "trace (dma1_init h m) = trace m @ dma1_init_stores h (regs m)"
  by (simp add: dma1_init_def dma1_init_stores_def set_bits_def read_reg_def)

lemma dma1_init_ticks [simp]: "ticks (dma1_init h m) = ticks m"
  by (simp add: dma1_init_def set_bits_def)

lemma dma1_init_buffer [simp]: "stress_buffer (dma1_init h m) = stress_buffer m"
  by (simp add: dma1_init_def set_bits_def)

lemma trace_bkpt [simp]: "trace (bkpt m) = trace m @ [Bkpt]"
  by (simp add: bkpt_def)

lemma stress_buffer_bkpt [simp]: "stress_buffer (bkpt m) = stress_buffer m"
  by (simp add: bkpt_def)

lemma hil_main_body_result:
  assumes txe: "txe_recurs hw h" and tcif: "tcif_recurs hw h"
  shows "\<exists>t\<ge>ticks m. hil_main_body hw h m =
     Some (bkpt (write_reg (GPIO_BSRR GPIOB) (push_bit 16 1)
       (send (map of_char (''HIL Stress Test Passed'' @ [CR, LF]))
         (send (map of_char (''HIL Stress Test Started'' @ [CR, LF]))
           ((write_reg (GPIO_BSRR GPIOB) (push_bit 0 1)
              (dma1_init h (hil_uart3_init h (fill_loop 0 m))))\<lparr>ticks := t\<rparr>)))))"
proof -
  let ?S = "''HIL Stress Test Started'' @ [CR, LF]"
  let ?P = "''HIL Stress Test Passed'' @ [CR, LF]"
  let ?m4 = "write_reg (GPIO_BSRR GPIOB) (push_bit 0 1)
              (dma1_init h (hil_uart3_init h (fill_loop 0 m)))"
  have tk: "ticks ?m4 = ticks m" by simp
  from uart3_write_str_send[OF txe, of ?m4 ?S] obtain t1 where
    t1: "ticks ?m4 \<le> t1"
        "uart3_write_str hw h ?S ?m4 = Some (send (map of_char ?S) (?m4\<lparr>ticks := t1\<rparr>))"
    by blast
  from wait_flag_total[of hw DMA1_ISR "h DMA_ISR_TCIF1" t1] tcif obtain t2 where
    t2: "wait_flag hw DMA1_ISR (h DMA_ISR_TCIF1) t1 = Some t2" "t1 < t2"
    unfolding tcif_recurs_def by blast
  let ?m6 = "send (map of_char ?S) (?m4\<lparr>ticks := t2\<rparr>)"
  from uart3_write_str_send[OF txe, of ?m6 ?P] obtain t3 where
    t3: "ticks ?m6 \<le> t3"
        "uart3_write_str hw h ?P ?m6 = Some (send (map of_char ?P) (?m6\<lparr>ticks := t3\<rparr>))"
    by blast
  have m6: "(send (map of_char ?S) (?m4\<lparr>ticks := t1\<rparr>))\<lparr>ticks := t2\<rparr> = ?m6"
    by (simp only: send_ticks_update) simp
  have m7: "?m6\<lparr>ticks := t3\<rparr> = send (map of_char ?S) (?m4\<lparr>ticks := t3\<rparr>)"
    by (simp only: send_ticks_update) simp
  have "hil_main_body hw h m =
     Some (bkpt (write_reg (GPIO_BSRR GPIOB) (push_bit 16 1)
       (send (map of_char ?P) (send (map of_char ?S) (?m4\<lparr>ticks := t3\<rparr>)))))"
    unfolding hil_main_body_def Let_def hil_uart3_write_str_eq
    using t1(2) t2(1) t3(2) m6 m7
    by (simp del: uart3_write_str.simps map_append push_bit_of_1)
  moreover have "ticks m \<le> t3" using t1(1) t2(2) t3(1) tk by simp
  ultimately show ?thesis by blast
qed

lemma hil_main_body_trace:
  assumes txe: "txe_recurs hw h" and tcif: "tcif_recurs hw h"
  shows "\<exists>m'. hil_main_body hw h m = Some m'
     \<and> trace m' = trace m
         @ map (\<lambda>i. Store i (of_nat i)) [0..<256]
         @ hil_uart3_init_stores h (regs m)
         @ dma1_init_stores h (regs m)
         @ [Write (GPIO_BSRR GPIOB) (push_bit 0 1)]
         @ map (\<lambda>c. Write USART3_TDR (of_char c)) (''HIL Stress Test Started'' @ [CR, LF])
         @ map (\<lambda>c. Write USART3_TDR (of_char c)) (''HIL Stress Test Passed'' @ [CR, LF])
         @ [Write (GPIO_BSRR GPIOB) (push_bit 16 1), Bkpt]
     \<and> (length (stress_buffer m) = 256 \<longrightarrow> stress_buffer m' = map of_nat [0..<256])"
proof -
  from hil_main_body_result[OF assms, of m] obtain t where
    r: "hil_main_body hw h m =
     Some (bkpt (write_reg (GPIO_BSRR GPIOB) (push_bit 16 1)
       (send (map of_char (''HIL Stress Test Passed'' @ [CR, LF]))
         (send (map of_char (''HIL Stress Test Started'' @ [CR, LF]))
           ((write_reg (GPIO_BSRR GPIOB) (push_bit 0 1)
              (dma1_init h (hil_uart3_init h (fill_loop 0 m))))\<lparr>ticks := t\<rparr>)))))"
    by blast
  have rs: "dma1_init_stores h (regs (hil_uart3_init h (fill_loop 0 m))) = dma1_init_stores h (regs m)"
    by (simp add: dma1_init_stores_def hil_uart3_init_regs)
  show ?thesis
    unfolding r
    by (rule exI, rule conjI, rule refl)
       (simp add: trace_send dma1_init_trace hil_uart3_init_trace rs
          fill_loop_trace fill_loop_buffer comp_def ucast_of_char
          del: map_append push_bit_of_1)
qed

lemma tcif_recurs_hw_ready: "tcif_recurs hw_ready sample_header"
  by (auto simp: tcif_recurs_def flag_recurs_def all_ones_and)

lemma hil_main_body_no_tcif:
  assumes "\<forall>t. hw t DMA1_ISR AND h DMA_ISR_TCIF1 = 0"
  shows "hil_main_body hw h m = None"
proof -
  have w: "wait_flag hw DMA1_ISR (h DMA_ISR_TCIF1) t = None" for t
    using assms by (rule wait_flag_never)
  show ?thesis
  unfolding hil_main_body_def Let_def
  by (cases "hil_uart3_write_str hw h (''HIL Stress Test Started'' @ [CR, LF])
              (write_reg (GPIO_BSRR GPIOB) (push_bit 0 1)
                (dma1_init h (hil_uart3_init h (fill_loop 0 m))))")
     (simp_all add: w del: hil_uart3_write_str.simps push_bit_of_1)
qed

lemma hil_main_None: "hil_main hw h m = None"
  by (cases "hil_main_body hw h m") (simp_all add: hil_main_def spin_forever_None)

lemma pattern_mod: "map (\<lambda>i. Store i (of_nat (i mod 256))) [0..<256] = map (\<lambda>i. Store i (of_nat i)) [0..<256]"
  by (rule map_cong) simp_all

lemma pattern_mod_buffer: "map (\<lambda>i. of_nat (i mod 256) :: u8) [0..<256] = map of_nat [0..<256]"
  by (rule map_cong) simp_all

lemma uart3_init_trace:
  "trace (uart3_init h m) = trace m @
     [ Write RCC_AHB2ENR (regs m RCC_AHB2ENR OR h RCC_AHB2ENR_GPIODEN),
       Write RCC_APB1LENR (regs m RCC_APB1LENR OR h RCC_APB1LENR_USART3EN),
       Write RCC_CCIPR1 (regs m RCC_CCIPR1 AND NOT (h RCC_CCIPR1_USART3SEL)),
       Write (GPIO_MODER GPIOD)
         (regs m (GPIO_MODER GPIOD) AND NOT (h GPIO_MODER_MODE8_Msk OR h GPIO_MODER_MODE9_Msk)),
       Write (GPIO_MODER GPIOD)
         ((regs m (GPIO_MODER GPIOD) AND NOT (h GPIO_MODER_MODE8_Msk OR h GPIO_MODER_MODE9_Msk))
            OR (h GPIO_MODER_MODE8_1 OR h GPIO_MODER_MODE9_1)),
       Write (GPIO_OTYPER GPIOD)
         (regs m (GPIO_OTYPER GPIOD) AND NOT (h GPIO_OTYPER_OT8 OR h GPIO_OTYPER_OT9)),
       Write (GPIO_OSPEEDR GPIOD)
         (regs m (GPIO_OSPEEDR GPIOD) OR (h GPIO_OSPEEDR_OSPEED8_Msk OR h GPIO_OSPEEDR_OSPEED9_Msk)),
       Write (GPIO_PUPDR GPIOD)
         (regs m (GPIO_PUPDR GPIOD) AND NOT (h GPIO_PUPDR_PUPD8_Msk OR h GPIO_PUPDR_PUPD9_Msk)),
       Write (GPIO_PUPDR GPIOD)
         ((regs m (GPIO_PUPDR GPIOD) AND NOT (h GPIO_PUPDR_PUPD8_Msk OR h GPIO_PUPDR_PUPD9_Msk))
            OR h GPIO_PUPDR_PUPD9_0),
       Write (GPIO_AFRH GPIOD)
         (regs m (GPIO_AFRH GPIOD) AND NOT (h GPIO_AFRH_AFSEL8_Msk OR h GPIO_AFRH_AFSEL9_Msk)),
       Write (GPIO_AFRH GPIOD)
         ((regs m (GPIO_AFRH GPIOD) AND NOT (h GPIO_AFRH_AFSEL8_Msk OR h GPIO_AFRH_AFSEL9_Msk))
            OR (push_bit (unat (h GPIO_AFRH_AFSEL8_Pos)) 7 OR push_bit (unat (h GPIO_AFRH_AFSEL9_Pos)) 7)),
       Write USART3_CR1 0,
       Write USART3_CR2 0,
       Write USART3_CR3 0,
       Write USART3_BRR 556,
       Write USART3_CR1 (h USART_CR1_TE OR h USART_CR1_RE OR h USART_CR1_UE) ]"
  by (simp add: uart3_init_def set_bits_def clear_bits_def read_reg_def
        USART3_BRR_115200_AT_64MHZ_def)

lemma uart3_init_regs:
  "regs (uart3_init h m) USART3_CR2 = 0"
  "regs (uart3_init h m) USART3_CR3 = 0"
  "regs (uart3_init h m) USART3_BRR = 556"
  "regs (uart3_init h m) USART3_CR1 = h USART_CR1_TE OR h USART_CR1_RE OR h USART_CR1_UE"
  by (simp_all add: uart3_init_def set_bits_def clear_bits_def read_reg_def
        USART3_BRR_115200_AT_64MHZ_def)

lemma replay_Nil [simp]: "replay [] rs = rs"
  by (simp add: replay_def)

lemma replay_Cons [simp]: "replay (e # tr) rs = replay tr (apply_event e rs)"
  by (simp add: replay_def)

lemma replay_append [simp]: "replay (a @ b) rs = replay b (replay a rs)"
  by (simp add: replay_def)

lemma replay_stores [simp]: "replay (map (\<lambda>i. Store i (f i)) xs) rs = rs"
  by (induction xs) simp_all

lemma replay_tdr:
  "r \<noteq> USART3_TDR \<Longrightarrow> replay (map (\<lambda>c. Write USART3_TDR (g c)) s) rs r = rs r"
  by (induction s arbitrary: rs) simp_all

lemma regs_send_replay:
  "regs (send bs m) = replay (map (\<lambda>b. Write USART3_TDR (ucast b)) bs) (regs m)"
  by (induction bs arbitrary: m) (simp_all add: send_Cons)

lemma regs_hil_uart3_init:
  "regs (hil_uart3_init h m) = replay (hil_uart3_init_stores h (regs m)) (regs m)"
  by (simp add: hil_uart3_init_def hil_uart3_init_stores_def set_bits_def clear_bits_def read_reg_def)

lemma regs_dma1_init:
  "regs (dma1_init h m) = replay (dma1_init_stores h (regs m)) (regs m)"
  by (simp add: dma1_init_def dma1_init_stores_def set_bits_def read_reg_def)

lemma regs_bkpt [simp]: "regs (bkpt m) = regs m"
  by (simp add: bkpt_def)

lemma regs_ticks_update [simp]: "regs (m\<lparr>ticks := t\<rparr>) = regs m"
  by simp

lemma hello_spin_id: "hello_spin i m = m"
  by (induction i m rule: hello_spin.induct) (subst hello_spin.simps, simp)

lemma uart_puts_trace:
  "trace (uart_puts s m) = trace m @ map (\<lambda>c. Write UART_DR (of_char c)) s"
  by (induction s arbitrary: m) (simp_all add: uart_putc_def)

lemma uart_tx_hello_chars: "uart_tx (map (\<lambda>c. Write UART_DR (of_char c)) s) = s"
  by (induction s) (simp_all add: unat_of_char_u32)

lemma uart_tx_uart_puts: "uart_tx (trace (uart_puts s m)) = uart_tx (trace m) @ s"
  by (simp add: uart_puts_trace uart_tx_hello_chars)

lemma hello_loop_tx:
  "uart_tx (trace (hello_loop n m)) = uart_tx (trace m) @ concat (replicate n (''Pulse...'' @ [LF]))"
proof (induction n arbitrary: m)
  case 0
  show ?case by simp
next
  case (Suc n)
  have "uart_tx (trace (hello_loop (Suc n) m))
          = uart_tx (trace (uart_puts (''Pulse...'' @ [LF]) m)) @ concat (replicate n (''Pulse...'' @ [LF]))"
    using Suc[of "uart_puts (''Pulse...'' @ [LF]) m"] by (simp add: hello_spin_id)
  then show ?case
    by (simp only: uart_tx_uart_puts replicate_Suc concat.simps append_assoc)
qed

lemma hello_main_tx:
  "uart_tx (trace (hello_main n m)) = uart_tx (trace m)
     @ (''Hello from LabWired C Example!'' @ [LF])
     @ (''This is running on a simulated ARM Cortex-M0.'' @ [LF])
     @ concat (replicate n (''Pulse...'' @ [LF]))"
  unfolding hello_main_def hello_loop_tx uart_tx_uart_puts by simp

lemma CR_not_in_pulses: "CR \<notin> set (concat (replicate n (''Pulse...'' @ [LF])))"
  by (induction n) (simp_all add: CR_def LF_def)

lemma hil_main_body_tx:
  assumes "txe_recurs hw h" and "tcif_recurs hw h"
  shows "\<exists>m'. hil_main_body hw h m = Some m'
     \<and> uart_tx (trace m') = uart_tx (trace m)
          @ (''HIL Stress Test Started'' @ [CR, LF]) @ (''HIL Stress Test Passed'' @ [CR, LF])"
proof -
  from hil_main_body_trace[OF assms, of m] obtain m' where
    m': "hil_main_body hw h m = Some m'"
    and tr: "trace m' = trace m
         @ map (\<lambda>i. Store i (of_nat i)) [0..<256]
         @ hil_uart3_init_stores h (regs m)
         @ dma1_init_stores h (regs m)
         @ [Write (GPIO_BSRR GPIOB) (push_bit 0 1)]
         @ map (\<lambda>c. Write USART3_TDR (of_char c)) (''HIL Stress Test Started'' @ [CR, LF])
         @ map (\<lambda>c. Write USART3_TDR (of_char c)) (''HIL Stress Test Passed'' @ [CR, LF])
         @ [Write (GPIO_BSRR GPIOB) (push_bit 16 1), Bkpt]"
    by blast
  have s: "uart_tx (map (\<lambda>i. Store i (f i)) xs) = []" for f :: "nat \<Rightarrow> u8" and xs
    by (induction xs) simp_all
  have "uart_tx (trace m') = uart_tx (trace m)
          @ (''HIL Stress Test Started'' @ [CR, LF]) @ (''HIL Stress Test Passed'' @ [CR, LF])"
    unfolding tr uart_tx_append uart_tx_chars s
    by (simp add: hil_uart3_init_stores_def dma1_init_stores_def)
  with m' show ?thesis by blast
qed

lemma busy_pins:
  "pin_config busy_machine GPIOC 12 = (2, True, 2, 2)"
  "pin_config busy_machine GPIOC 13 = (3, True, 3, 3)"
  "pin_config busy_machine GPIOC 14 = (1, False, 1, 1)"
  by (simp_all add: pin_config_def busy_machine_def field2_def)

lemma stores_Nil [simp]: "stores [] = []"
  by (simp add: stores_def)

lemma stores_append [simp]: "stores (a @ b) = stores a @ stores b"
  by (simp add: stores_def)

lemma stores_Cons [simp]: "stores (x # a) = store_of x @ stores a"
  by (simp add: stores_def)

lemma stores_polls [simp]: "stores (polls r t t') = []"
  by (simp add: polls_def stores_def)

lemma stores_map_Do [simp]: "stores (map Do es) = es"
  by (induction es) simp_all

lemma wait_flag_sees:
  "wait_flag hw r msk t = Some t' \<Longrightarrow>
     t < t' \<and> hw (t' - 1) r AND msk \<noteq> 0 \<and> (\<forall>k. t \<le> k \<and> k < t' - 1 \<longrightarrow> hw k r AND msk = 0)"
proof (rule wait_flag.raw_induct[where P = "\<lambda>hw r msk t t'.
         t < t' \<and> hw (t' - 1) r AND msk \<noteq> 0 \<and> (\<forall>k. t \<le> k \<and> k < t' - 1 \<longrightarrow> hw k r AND msk = 0)"])
  fix wait_flag' :: "hardware \<Rightarrow> reg \<Rightarrow> u32 \<Rightarrow> nat \<Rightarrow> nat option"
    and hw r msk t t'
  assume IH: "\<And>hw r msk t t'. wait_flag' hw r msk t = Some t' \<Longrightarrow>
         t < t' \<and> hw (t' - 1) r AND msk \<noteq> 0 \<and> (\<forall>k. t \<le> k \<and> k < t' - 1 \<longrightarrow> hw k r AND msk = 0)"
    and step: "(if hw t r AND msk = 0 then wait_flag' hw r msk (Suc t) else Some (Suc t)) = Some t'"
  show "t < t' \<and> hw (t' - 1) r AND msk \<noteq> 0 \<and> (\<forall>k. t \<le> k \<and> k < t' - 1 \<longrightarrow> hw k r AND msk = 0)"
  proof (cases "hw t r AND msk = 0")
    case True
    with step have "wait_flag' hw r msk (Suc t) = Some t'" by simp
    from IH[OF this] have a: "Suc t < t'" "hw (t' - 1) r AND msk \<noteq> 0"
      "\<forall>k. Suc t \<le> k \<and> k < t' - 1 \<longrightarrow> hw k r AND msk = 0" by simp_all
    have "hw k r AND msk = 0" if "t \<le> k" "k < t' - 1" for k
    proof (cases "k = t")
      case True
      with \<open>hw t r AND msk = 0\<close> show ?thesis by simp
    next
      case False
      with that have "Suc t \<le> k" by simp
      with a(3) that(2) show ?thesis by blast
    qed
    with a show ?thesis by simp
  next
    case False
    with step have "t' = Suc t" by simp
    with False show ?thesis by auto
  qed
qed

lemma hil_uart3_write_str_log_Some:
  "hil_uart3_write_str hw h s m = Some m' \<Longrightarrow>
     \<exists>acc. hil_uart3_write_str_log hw h s m = Some (m', acc)
       \<and> stores acc = map (\<lambda>c. Write USART3_TDR (of_char c)) s
       \<and> (\<forall>r k. Load r k \<in> set acc \<longrightarrow> r = USART3_ISR)"
proof (induction s arbitrary: m)
  case Nil
  then show ?case by simp
next
  case (Cons c s)
  from Cons.prems obtain t where
    t: "wait_flag hw USART3_ISR (h USART_ISR_TXE_TXFNF) (ticks m) = Some t"
    and r: "hil_uart3_write_str hw h s
              (write_reg USART3_TDR (ucast (of_char c :: u8)) (m\<lparr>ticks := t\<rparr>)) = Some m'"
    by (auto split: option.splits)
  from Cons.IH[OF r] obtain acc where
    acc: "hil_uart3_write_str_log hw h s
              (write_reg USART3_TDR (ucast (of_char c :: u8)) (m\<lparr>ticks := t\<rparr>)) = Some (m', acc)"
      "stores acc = map (\<lambda>c. Write USART3_TDR (of_char c)) s"
      "\<forall>r k. Load r k \<in> set acc \<longrightarrow> r = USART3_ISR"
    by blast
  let ?acc = "polls USART3_ISR (ticks m) t @ [Do (Write USART3_TDR (ucast (of_char c :: u8)))] @ acc"
  have "hil_uart3_write_str_log hw h (c # s) m = Some (m', ?acc)"
    using t acc(1) by simp
  moreover have "stores ?acc = map (\<lambda>c. Write USART3_TDR (of_char c)) (c # s)"
    using acc(2) by (simp add: ucast_of_char)
  moreover have "\<forall>r k. Load r k \<in> set ?acc \<longrightarrow> r = USART3_ISR"
    using acc(3) by (auto simp: polls_def)
  ultimately show ?case by blast
qed

lemma hil_uart3_write_str_log_fst:
  "map_option fst (hil_uart3_write_str_log hw h s m) = hil_uart3_write_str hw h s m"
proof (induction s arbitrary: m)
  case Nil
  show ?case by simp
next
  case (Cons c s)
  show ?case
  proof (cases "wait_flag hw USART3_ISR (h USART_ISR_TXE_TXFNF) (ticks m)")
    case None
    then show ?thesis by simp
  next
    case (Some t)
    let ?m = "write_reg USART3_TDR (ucast (of_char c :: u8)) (m\<lparr>ticks := t\<rparr>)"
    show ?thesis
      using Some Cons[of ?m]
      by (cases "hil_uart3_write_str_log hw h s ?m") auto
  qed
qed

lemma hil_uart3_write_str_log_None:
  "hil_uart3_write_str_log hw h s m = None \<Longrightarrow> hil_uart3_write_str hw h s m = None"
  using hil_uart3_write_str_log_fst[of hw h s m] by simp

lemma hil_uart3_write_str_log_Some_fst:
  "hil_uart3_write_str_log hw h s m = Some (m', acc) \<Longrightarrow> hil_uart3_write_str hw h s m = Some m'"
  using hil_uart3_write_str_log_fst[of hw h s m] by simp

lemma hil_main_body_log_fst:
  "map_option fst (hil_main_body_log hw h m) = hil_main_body hw h m"
proof -
  let ?S = "''HIL Stress Test Started'' @ [CR, LF]"
  let ?P = "''HIL Stress Test Passed'' @ [CR, LF]"
  let ?m4 = "write_reg (GPIO_BSRR GPIOB) (push_bit 0 1)
              (dma1_init h (hil_uart3_init h (fill_loop 0 m)))"
  note defs = hil_main_body_log_def hil_main_body_def Let_def
  note [simp del] = hil_uart3_write_str.simps hil_uart3_write_str_log.simps map_append push_bit_of_1
  show ?thesis
  proof (cases "hil_uart3_write_str_log hw h ?S ?m4")
    case None
    from None hil_uart3_write_str_log_None[OF None] show ?thesis by (simp add: defs)
  next
    case (Some r5)
    obtain m5 a5 where r5: "r5 = (m5, a5)" by (cases r5)
    note l5 = Some[unfolded r5]
    note p5 = hil_uart3_write_str_log_Some_fst[OF l5]
    show ?thesis
    proof (cases "wait_flag hw DMA1_ISR (h DMA_ISR_TCIF1) (ticks m5)")
      case None
      with l5 p5 show ?thesis by (simp add: defs)
    next
      case (Some t)
      note w = Some
      show ?thesis
      proof (cases "hil_uart3_write_str_log hw h ?P (m5\<lparr>ticks := t\<rparr>)")
        case None
        from l5 p5 w None hil_uart3_write_str_log_None[OF None] show ?thesis by (simp add: defs)
      next
        case (Some r7)
        obtain m7 a7 where r7: "r7 = (m7, a7)" by (cases r7)
        note l7 = Some[unfolded r7]
        from l5 p5 w l7 hil_uart3_write_str_log_Some_fst[OF l7] show ?thesis by (simp add: defs)
      qed
    qed
  qed
qed

lemma stores_stores_since [simp]: "stores (stores_since m m') = drop (length (trace m)) (trace m')"
  by (simp add: stores_since_def)

lemma Load_notin_stores_since [simp]: "Load r k \<notin> set (stores_since m m')"
  by (auto simp: stores_since_def)

lemma hil_main_body_log_order:
  assumes txe: "txe_recurs hw h" and tcif: "tcif_recurs hw h"
  shows "\<exists>m' pre t1 t2 post.
           hil_main_body_log hw h m = Some (m', pre @ polls DMA1_ISR t1 t2 @ post)
         \<and> stores pre =
               map (\<lambda>i. Store i (of_nat i)) [0..<256]
             @ hil_uart3_init_stores h (regs m)
             @ dma1_init_stores h (regs m)
             @ [Write (GPIO_BSRR GPIOB) (push_bit 0 1)]
             @ map (\<lambda>c. Write USART3_TDR (of_char c)) (''HIL Stress Test Started'' @ [CR, LF])
         \<and> stores post =
               map (\<lambda>c. Write USART3_TDR (of_char c)) (''HIL Stress Test Passed'' @ [CR, LF])
             @ [Write (GPIO_BSRR GPIOB) (push_bit 16 1), Bkpt]
         \<and> (\<forall>k. Load DMA1_ISR k \<notin> set (pre @ post))
         \<and> t1 < t2 \<and> hw (t2 - 1) DMA1_ISR AND h DMA_ISR_TCIF1 \<noteq> 0
         \<and> (\<forall>k. t1 \<le> k \<and> k < t2 - 1 \<longrightarrow> hw k DMA1_ISR AND h DMA_ISR_TCIF1 = 0)"
proof -
  let ?S = "''HIL Stress Test Started'' @ [CR, LF]"
  let ?P = "''HIL Stress Test Passed'' @ [CR, LF]"
  let ?m4 = "write_reg (GPIO_BSRR GPIOB) (push_bit 0 1)
              (dma1_init h (hil_uart3_init h (fill_loop 0 m)))"
  note [simp del] = hil_uart3_write_str.simps hil_uart3_write_str_log.simps map_append
    push_bit_of_1 uart3_write_str.simps upt_rec_numeral
  from uart3_write_str_send[OF txe, of ?m4 ?S] obtain m5 where
    p5: "hil_uart3_write_str hw h ?S ?m4 = Some m5"
    by (auto simp: hil_uart3_write_str_eq)
  from hil_uart3_write_str_log_Some[OF p5] obtain a5 where
    l5: "hil_uart3_write_str_log hw h ?S ?m4 = Some (m5, a5)"
    and s5: "stores a5 = map (\<lambda>c. Write USART3_TDR (of_char c)) ?S"
    and u5: "\<forall>r k. Load r k \<in> set a5 \<longrightarrow> r = USART3_ISR"
    by blast
  from wait_flag_total[of hw DMA1_ISR "h DMA_ISR_TCIF1" "ticks m5"] tcif obtain t2 where
    w: "wait_flag hw DMA1_ISR (h DMA_ISR_TCIF1) (ticks m5) = Some t2"
    unfolding tcif_recurs_def by blast
  note sees = wait_flag_sees[OF w]
  from uart3_write_str_send[OF txe, of "m5\<lparr>ticks := t2\<rparr>" ?P] obtain m7 where
    p7: "hil_uart3_write_str hw h ?P (m5\<lparr>ticks := t2\<rparr>) = Some m7"
    by (auto simp: hil_uart3_write_str_eq)
  from hil_uart3_write_str_log_Some[OF p7] obtain a7 where
    l7: "hil_uart3_write_str_log hw h ?P (m5\<lparr>ticks := t2\<rparr>) = Some (m7, a7)"
    and s7: "stores a7 = map (\<lambda>c. Write USART3_TDR (of_char c)) ?P"
    and u7: "\<forall>r k. Load r k \<in> set a7 \<longrightarrow> r = USART3_ISR"
    by blast
  let ?m9 = "bkpt (write_reg (GPIO_BSRR GPIOB) (push_bit 16 1) m7)"
  let ?pre = "stores_since m ?m4 @ a5"
  let ?post = "a7 @ stores_since m7 ?m9"
  have r: "hil_main_body_log hw h m = Some (?m9, ?pre @ polls DMA1_ISR (ticks m5) t2 @ ?post)"
    using l5 w l7 by (simp add: hil_main_body_log_def Let_def)
  have rs: "dma1_init_stores h (regs (hil_uart3_init h (fill_loop 0 m))) = dma1_init_stores h (regs m)"
    by (simp add: dma1_init_stores_def hil_uart3_init_regs)
  have pre: "stores ?pre =
               map (\<lambda>i. Store i (of_nat i)) [0..<256]
             @ hil_uart3_init_stores h (regs m)
             @ dma1_init_stores h (regs m)
             @ [Write (GPIO_BSRR GPIOB) (push_bit 0 1)]
             @ map (\<lambda>c. Write USART3_TDR (of_char c)) ?S"
    by (simp add: s5 dma1_init_trace hil_uart3_init_trace fill_loop_trace rs)
  have post: "stores ?post =
               map (\<lambda>c. Write USART3_TDR (of_char c)) ?P
             @ [Write (GPIO_BSRR GPIOB) (push_bit 16 1), Bkpt]"
    by (simp add: s7)
  have no: "\<forall>k. Load DMA1_ISR k \<notin> set (?pre @ ?post)"
    using u5 u7 by auto
  from r pre post no sees show ?thesis by blast
qed

section \<open>The properties of the specification\<close>

text \<open>
  C1. For every 32-bit value, provided the transmitter does not stay busy
  forever, \<open>uart3_write_u32_dec\<close> returns, and what it stores to the transmit
  data register (one store per \<open>uart3_write_byte\<close>) is exactly the decimal
  representation of the value: digits only, most significant first, reading back
  as the value, the single character \<open>0\<close> for zero and no leading zero
  otherwise.
\<close>

theorem uart3_write_u32_dec_decimal:
  assumes "txe_recurs hw h"
  shows "\<exists>m'. uart3_write_u32_dec hw h v m = Some m'
           \<and> trace m' = trace m @ map (\<lambda>c. Write USART3_TDR (of_char c)) (decimal (unat v))
           \<and> decimal (unat v) \<noteq> []
           \<and> set (decimal (unat v)) \<subseteq> set ''0123456789''
           \<and> dec_value (decimal (unat v)) = unat v
           \<and> (v = 0 \<longrightarrow> decimal (unat v) = ''0'')
           \<and> (v \<noteq> 0 \<longrightarrow> hd (decimal (unat v)) \<noteq> CHR ''0'')"
proof -
  from uart3_write_u32_dec_send[OF assms, of m v] obtain t where
    r: "uart3_write_u32_dec hw h v m = Some (send (map of_char (decimal (unat v))) (m\<lparr>ticks := t\<rparr>))"
    by blast
  have "trace (send (map (of_char :: char \<Rightarrow> u8) (decimal (unat v))) (m\<lparr>ticks := t\<rparr>))
          = trace m @ map (\<lambda>c. Write USART3_TDR (of_char c)) (decimal (unat v))"
    by (simp add: trace_send ucast_of_char)
  moreover have "v \<noteq> 0 \<Longrightarrow> hd (decimal (unat v)) \<noteq> CHR ''0''"
    using decimal_no_leading_zero[of "unat v"] by (simp add: unat_gt_0)
  moreover have "v = 0 \<Longrightarrow> decimal (unat v) = ''0''"
    by (simp add: decimal_zero)
  ultimately show ?thesis
    using r decimal_nonempty[of "unat v"] decimal_digits[of "unat v"] dec_value_decimal[of "unat v"]
    by blast
qed

text \<open>C1 at the largest value, on the concrete board.\<close>

theorem uart3_write_u32_dec_decimal_witness:
  "txe_recurs hw_ready sample_header
   \<and> (\<exists>m'. uart3_write_u32_dec hw_ready sample_header 4294967295 reset_machine = Some m'
           \<and> trace m' = map (\<lambda>c. Write USART3_TDR (of_char c)) ''4294967295''
           \<and> dec_value ''4294967295'' = 4294967295
           \<and> hd ''4294967295'' \<noteq> CHR ''0'')"
  using uart3_write_u32_dec_decimal[OF txe_recurs_hw_ready, of 4294967295 reset_machine]
    txe_recurs_hw_ready
  by (simp add: decimal_max reset_machine_def)

text \<open>
  C9. For every 32-bit value the digit loop started on the empty 10-byte buffer
  ends without an access outside the buffer (it would be \<open>None\<close>), with
  \<open>value = 0\<close>, so that the guard \<open>i < sizeof(buf)\<close> has cut no digit off,
  with \<open>i \<le> 10\<close> cells stored, one per decimal digit; the value decreases
  at every division by 10, which is the measure of the loop's termination; and
  the loads of the emitting loop stay inside the buffer and on stored cells, so
  that the whole function returns when the transmitter does not stay busy.
\<close>

theorem digit_loop_bounds:
  "\<exists>i buf. digit_loop v 0 (replicate 10 None) = Some (0, i, buf)
      \<and> unat i \<le> 10 \<and> length buf = 10
      \<and> length (filter (\<lambda>c. c \<noteq> None) buf) = unat i
      \<and> (v \<noteq> 0 \<longrightarrow> unat i = length (decimal (unat v)))
      \<and> (0 < v \<longrightarrow> v div 10 < v)
      \<and> (txe_recurs hw h \<longrightarrow> (\<exists>m'. uart3_write_u32_dec hw h v m = Some m'))"
proof -
  let ?ds = "lsd (unat v)"
  have len: "length ?ds \<le> 10" by (rule length_lsd_u32)
  have dl: "digit_loop v 0 (replicate 10 None) =
          Some (0, of_nat (length ?ds), map Some (map digit_byte ?ds) @ replicate (10 - length ?ds) None)"
    using digit_loop_store[of "replicate 10 None" 0 v] len by (simp add: comp_def)
  have ui: "unat (of_nat (length ?ds) :: u32) = length ?ds"
    using len by (simp add: unat_of_nat)
  have dec: "v \<noteq> 0 \<Longrightarrow> length ?ds = length (decimal (unat v))"
    by (simp add: decimal_lsd unat_gt_0)
  have decr: "0 < v \<Longrightarrow> v div 10 < v"
  proof -
    assume "0 < v"
    then have "0 < unat v" by (simp add: word_greater_zero_iff unat_gt_0)
    then have "unat v div 10 < unat v" by simp
    then show ?thesis by (simp add: word_less_nat_alt unat_div)
  qed
  have ret: "txe_recurs hw h \<Longrightarrow> \<exists>m'. uart3_write_u32_dec hw h v m = Some m'"
    using uart3_write_u32_dec_send[of hw h m v] by blast
  have cells: "length (filter (\<lambda>c. c \<noteq> None)
                 (map Some (map digit_byte ?ds) @ replicate (10 - length ?ds) None))
               = length ?ds"
    using set_cells[of "map digit_byte ?ds"] by simp
  have "unat (of_nat (length ?ds) :: u32) \<le> 10" using ui len by simp
  moreover have "length (map Some (map digit_byte ?ds) @ replicate (10 - length ?ds) (None :: u8 option)) = 10"
    using len by simp
  moreover have "length (filter (\<lambda>c. c \<noteq> None)
                 (map Some (map digit_byte ?ds) @ replicate (10 - length ?ds) None))
               = unat (of_nat (length ?ds) :: u32)"
    using cells ui by simp
  moreover have "v \<noteq> 0 \<longrightarrow> unat (of_nat (length ?ds) :: u32) = length (decimal (unat v))"
    using dec ui by metis
  ultimately show ?thesis
    using dl decr ret by blast
qed

text \<open>C9 at the largest value, which needs all ten cells.\<close>

theorem digit_loop_bounds_witness:
  "(4294967295 :: u32) \<noteq> 0 \<and> 0 < (4294967295 :: u32) \<and> txe_recurs hw_ready sample_header
   \<and> (\<exists>i buf. digit_loop 4294967295 0 (replicate 10 None) = Some (0, i, buf)
         \<and> unat i = 10 \<and> length buf = 10
         \<and> length (filter (\<lambda>c. c \<noteq> None) buf) = 10
         \<and> (4294967295 :: u32) div 10 < 4294967295
         \<and> (\<exists>m'. uart3_write_u32_dec hw_ready sample_header 4294967295 reset_machine = Some m'))"
proof -
  have nz: "(4294967295 :: u32) \<noteq> 0" and pos: "0 < (4294967295 :: u32)" by simp_all
  from digit_loop_bounds[of 4294967295 hw_ready sample_header reset_machine]
  obtain i buf where
    "digit_loop 4294967295 0 (replicate 10 None) = Some (0, i, buf)"
    "length buf = 10" "length (filter (\<lambda>c. c \<noteq> None) buf) = unat i"
    "unat i = length (decimal (unat (4294967295 :: u32)))"
    "(4294967295 :: u32) div 10 < 4294967295"
    "\<exists>m'. uart3_write_u32_dec hw_ready sample_header 4294967295 reset_machine = Some m'"
    using nz pos txe_recurs_hw_ready by blast
  moreover have "length (decimal (unat (4294967295 :: u32))) = 10" by (simp add: decimal_max)
  ultimately show ?thesis using nz pos txe_recurs_hw_ready by auto
qed

text \<open>
  C8, as the code has it. For every pin number below 16, the pins a port has,
  \<open>gpio_config_output\<close> leaves the pin's mode field at 01 (general-purpose
  output), its output-type bit clear (push-pull), its speed field set (to 01) and
  its pull field clear.
\<close>

theorem gpio_config_output_sets_pin:
  assumes "unat pin < 16"
  shows "\<exists>m'. gpio_config_output gpio pin m = Some m'
           \<and> pin_config m' gpio (unat pin) = (1, False, 1, 0)"
proof -
  from gpio_config_output_regs[OF assms, of gpio m] obtain m' where
    "gpio_config_output gpio pin m = Some m'"
    "regs m' (GPIO_MODER gpio) = (regs m (GPIO_MODER gpio) AND NOT (push_bit (2 * unat pin) 3)) OR push_bit (2 * unat pin) 1"
    "regs m' (GPIO_OTYPER gpio) = regs m (GPIO_OTYPER gpio) AND NOT (push_bit (unat pin) 1)"
    "regs m' (GPIO_OSPEEDR gpio) = (regs m (GPIO_OSPEEDR gpio) AND NOT (push_bit (2 * unat pin) 3)) OR push_bit (2 * unat pin) 1"
    "regs m' (GPIO_PUPDR gpio) = regs m (GPIO_PUPDR gpio) AND NOT (push_bit (2 * unat pin) 3)"
    by blast
  then show ?thesis
    using assms
    by (simp add: pin_config_def field2_set_01 field2_clear bit_clear_one del: push_bit_of_1)
qed

text \<open>
  C8 for pin 13 of port C, from registers in which the pin's fields and its
  output-type bit are all set.
\<close>

theorem gpio_config_output_sets_pin_witness:
  "unat (13 :: u32) < 16
   \<and> pin_config busy_machine GPIOC 13 = (3, True, 3, 3)
   \<and> (\<exists>m'. gpio_config_output GPIOC 13 busy_machine = Some m'
          \<and> pin_config m' GPIOC 13 = (1, False, 1, 0))"
  using gpio_config_output_sets_pin[of 13 GPIOC busy_machine] by (simp add: busy_pins)

text \<open>
  C8 as stated fails: not for every pin number. For pin number 16 the shift
  count is 32, the shift has no defined result and the call leaves no
  configuration at all.
\<close>

theorem gpio_config_output_sets_pin_counterexample:
  "unat (16 :: u32) < 32 \<and> gpio_config_output GPIOC 16 reset_machine = None"
  by (simp add: gpio_config_output_def)

text \<open>
  C10, as the code has it. Called with a pin number below 16,
  \<open>gpio_config_output\<close> and \<open>gpio_config_input_pullup\<close> change the
  configuration of the given pin only: for every other pin number \<open>p'\<close> the
  2-bit fields of MODER, OSPEEDR and PUPDR at position \<open>2 * p'\<close> and the OTYPER
  bit at position \<open>p'\<close> are after the call what they were before.
\<close>

theorem gpio_config_frame:
  assumes "unat pin < 16" and "p' \<noteq> unat pin"
  shows "\<exists>m1 m2. gpio_config_output gpio pin m = Some m1
           \<and> gpio_config_input_pullup gpio pin m = Some m2
           \<and> pin_config m1 gpio p' = pin_config m gpio p'
           \<and> pin_config m2 gpio p' = pin_config m gpio p'"
proof -
  from gpio_config_output_regs[OF assms(1), of gpio m] obtain m1 where m1:
    "gpio_config_output gpio pin m = Some m1"
    "regs m1 (GPIO_MODER gpio) = (regs m (GPIO_MODER gpio) AND NOT (push_bit (2 * unat pin) 3)) OR push_bit (2 * unat pin) 1"
    "regs m1 (GPIO_OTYPER gpio) = regs m (GPIO_OTYPER gpio) AND NOT (push_bit (unat pin) 1)"
    "regs m1 (GPIO_OSPEEDR gpio) = (regs m (GPIO_OSPEEDR gpio) AND NOT (push_bit (2 * unat pin) 3)) OR push_bit (2 * unat pin) 1"
    "regs m1 (GPIO_PUPDR gpio) = regs m (GPIO_PUPDR gpio) AND NOT (push_bit (2 * unat pin) 3)"
    by blast
  from gpio_config_input_pullup_regs[OF assms(1), of gpio m] obtain m2 where m2:
    "gpio_config_input_pullup gpio pin m = Some m2"
    "regs m2 (GPIO_MODER gpio) = regs m (GPIO_MODER gpio) AND NOT (push_bit (2 * unat pin) 3)"
    "regs m2 (GPIO_OTYPER gpio) = regs m (GPIO_OTYPER gpio)"
    "regs m2 (GPIO_OSPEEDR gpio) = regs m (GPIO_OSPEEDR gpio)"
    "regs m2 (GPIO_PUPDR gpio) = (regs m (GPIO_PUPDR gpio) AND NOT (push_bit (2 * unat pin) 3)) OR push_bit (2 * unat pin) 1"
    by blast
  have "pin_config m1 gpio p' = pin_config m gpio p'"
    using m1 assms(2) by (simp add: pin_config_def field2_set_other field2_clear_other bit_clear_one del: push_bit_of_1)
  moreover have "pin_config m2 gpio p' = pin_config m gpio p'"
    using m2 assms(2) by (simp add: pin_config_def field2_set_other field2_clear_other del: push_bit_of_1)
  ultimately show ?thesis using m1(1) m2(1) by blast
qed

text \<open>
  C10 for pin 13 of port C, seen from its neighbours 12 and 14, whose
  configurations differ from each other and are neither all clear nor all set.
\<close>

theorem gpio_config_frame_witness:
  "unat (13 :: u32) < 16 \<and> (12 :: nat) \<noteq> unat (13 :: u32) \<and> (14 :: nat) \<noteq> unat (13 :: u32)
   \<and> (\<exists>m1 m2. gpio_config_output GPIOC 13 busy_machine = Some m1
           \<and> gpio_config_input_pullup GPIOC 13 busy_machine = Some m2
           \<and> pin_config m1 GPIOC 12 = (2, True, 2, 2)
           \<and> pin_config m2 GPIOC 12 = (2, True, 2, 2)
           \<and> pin_config m1 GPIOC 14 = (1, False, 1, 1)
           \<and> pin_config m2 GPIOC 14 = (1, False, 1, 1))"
proof -
  from gpio_config_frame[of 13 12 GPIOC busy_machine] obtain m1 m2 where
    a: "gpio_config_output GPIOC 13 busy_machine = Some m1"
       "gpio_config_input_pullup GPIOC 13 busy_machine = Some m2"
       "pin_config m1 GPIOC 12 = pin_config busy_machine GPIOC 12"
       "pin_config m2 GPIOC 12 = pin_config busy_machine GPIOC 12"
    by auto
  from gpio_config_frame[of 13 14 GPIOC busy_machine] a(1,2) have
    b: "pin_config m1 GPIOC 14 = pin_config busy_machine GPIOC 14"
       "pin_config m2 GPIOC 14 = pin_config busy_machine GPIOC 14"
    by auto
  from a b show ?thesis by (simp add: busy_pins)
qed

text \<open>
  C10 as stated fails: with pin number \<open>0x80000000\<close> the product \<open>pin * 2U\<close>
  wraps to 0, every shift of \<open>gpio_config_input_pullup\<close> is defined, and the
  call rewrites the pull field of pin 0, which is another pin number.
\<close>

theorem gpio_config_frame_counterexample:
  "(0 :: nat) \<noteq> unat (0x80000000 :: u32)
   \<and> gpio_config_input_pullup GPIOC 0x80000000 reset_machine \<noteq> None
   \<and> pin_config reset_machine GPIOC 0 = (0, False, 0, 0)
   \<and> pin_config (the (gpio_config_input_pullup GPIOC 0x80000000 reset_machine)) GPIOC 0
        = (0, False, 0, 1)"
  by (simp add: gpio_config_input_pullup_def pin_config_def field2_def reset_machine_def
        clear_bits_def read_reg_def)

text \<open>
  C5. \<open>led_write\<close> stores to the set/reset register of each LED port a word
  with a single bit: bit N (the LED's pin) to assert, bit N + 16 to deassert.
  With the port reacting to that register as the specification describes
  (\<open>bsrr_effect\<close>), the LED's output bit takes the requested level and every
  other output bit of the port, and every other port, keeps its level.
\<close>

theorem led_write_isolation:
  "trace (led_write on m) = trace m @
     [Write (GPIO_BSRR GPIOB) (if on \<noteq> 0 then push_bit 0 1 else push_bit (0 + 16) 1),
      Write (GPIO_BSRR GPIOF) (if on \<noteq> 0 then push_bit 4 1 else push_bit (4 + 16) 1),
      Write (GPIO_BSRR GPIOG) (if on \<noteq> 0 then push_bit 4 1 else push_bit (4 + 16) 1)]
   \<and> (\<forall>k. bit (regs (led_write on m) (GPIO_ODR GPIOB)) k
            = (if k = 0 then on \<noteq> 0 else bit (regs m (GPIO_ODR GPIOB)) k))
   \<and> (\<forall>k. bit (regs (led_write on m) (GPIO_ODR GPIOF)) k
            = (if k = 4 then on \<noteq> 0 else bit (regs m (GPIO_ODR GPIOF)) k))
   \<and> (\<forall>k. bit (regs (led_write on m) (GPIO_ODR GPIOG)) k
            = (if k = 4 then on \<noteq> 0 else bit (regs m (GPIO_ODR GPIOG)) k))
   \<and> (\<forall>gpio. gpio \<notin> {GPIOB, GPIOF, GPIOG}
         \<longrightarrow> regs (led_write on m) (GPIO_ODR gpio) = regs m (GPIO_ODR gpio))"
proof (intro conjI allI impI)
  show "trace (led_write on m) = trace m @
     [Write (GPIO_BSRR GPIOB) (if on \<noteq> 0 then push_bit 0 1 else push_bit (0 + 16) 1),
      Write (GPIO_BSRR GPIOF) (if on \<noteq> 0 then push_bit 4 1 else push_bit (4 + 16) 1),
      Write (GPIO_BSRR GPIOG) (if on \<noteq> 0 then push_bit 4 1 else push_bit (4 + 16) 1)]"
    by (rule led_write_trace)
next
  fix k
  have "(0 :: nat) < 16" by simp
  from bsrr_pin[OF this, of "regs m (GPIO_ODR GPIOB)" on k]
  show "bit (regs (led_write on m) (GPIO_ODR GPIOB)) k
            = (if k = 0 then on \<noteq> 0 else bit (regs m (GPIO_ODR GPIOB)) k)"
    by (simp only: led_write_odr simp_thms if_True)
next
  fix k
  have "(4 :: nat) < 16" by simp
  from bsrr_pin[OF this, of "regs m (GPIO_ODR GPIOF)" on k]
  show "bit (regs (led_write on m) (GPIO_ODR GPIOF)) k
            = (if k = 4 then on \<noteq> 0 else bit (regs m (GPIO_ODR GPIOF)) k)"
    by (simp only: led_write_odr port.distinct simp_thms if_True if_False)
next
  fix k
  have "(4 :: nat) < 16" by simp
  from bsrr_pin[OF this, of "regs m (GPIO_ODR GPIOG)" on k]
  show "bit (regs (led_write on m) (GPIO_ODR GPIOG)) k
            = (if k = 4 then on \<noteq> 0 else bit (regs m (GPIO_ODR GPIOG)) k)"
    by (simp only: led_write_odr port.distinct simp_thms if_True if_False)
next
  fix gpio
  assume "gpio \<notin> {GPIOB, GPIOF, GPIOG}"
  then show "regs (led_write on m) (GPIO_ODR gpio) = regs m (GPIO_ODR gpio)"
    by (simp add: led_write_odr)
qed

text \<open>
  C5 on a port whose pins 0 and 1 are at opposite levels: pin 1 holds its level
  whichever way pin 0 is written.
\<close>

theorem led_write_isolation_witness:
  "GPIOC \<notin> {GPIOB, GPIOF, GPIOG}
   \<and> bit (regs lit_machine (GPIO_ODR GPIOB)) 1 \<and> \<not> bit (regs lit_machine (GPIO_ODR GPIOB)) 0
   \<and> trace (led_write 0 lit_machine) = trace lit_machine @
        [Write (GPIO_BSRR GPIOB) 0x10000, Write (GPIO_BSRR GPIOF) 0x100000,
         Write (GPIO_BSRR GPIOG) 0x100000]
   \<and> bit (regs (led_write 0 lit_machine) (GPIO_ODR GPIOB)) 1
   \<and> \<not> bit (regs (led_write 0 lit_machine) (GPIO_ODR GPIOB)) 0
   \<and> bit (regs (led_write 1 lit_machine) (GPIO_ODR GPIOB)) 1
   \<and> bit (regs (led_write 1 lit_machine) (GPIO_ODR GPIOB)) 0
   \<and> regs (led_write 1 lit_machine) (GPIO_ODR GPIOC) = regs lit_machine (GPIO_ODR GPIOC)"
proof -
  have b: "bit (regs lit_machine (GPIO_ODR GPIOB)) 1" "\<not> bit (regs lit_machine (GPIO_ODR GPIOB)) 0"
    by (simp_all add: lit_machine_def reset_machine_def bsrr_effect_def)
  from led_write_isolation[of 0 lit_machine] led_write_isolation[of 1 lit_machine] b
  show ?thesis by simp
qed

text \<open>
  C2. In the board firmware, when the transmitter does not stay busy forever,
  initialisation returns, and the first round of the loop, with
  \<open>blink_count = 0\<close> and \<open>led_on = 0\<close>, leaves both at 1; if its load of the
  button port finds pin 13 low, the round stores exactly this: the three LED pins
  asserted (the first toggle sets the level high), then the characters of
  \<open>BLINK 0 PB0=1 PF4=1 PG4=1 BTN13=0\<close>, carriage return, line feed, to the
  transmit data register.
\<close>

theorem first_blink_line:
  assumes "txe_recurs hw h"
  shows "\<exists>mi m'. main_init hw h m = Some mi
           \<and> main_iter hw h (0, 0, mi) = Some (1, 1, m')
           \<and> main hw h 1 m = Some (1, 1, m')
           \<and> (\<not> bit (hw (ticks mi) (GPIO_IDR GPIOC)) 13 \<longrightarrow>
                trace m' = trace mi
                  @ [Write (GPIO_BSRR GPIOB) 0x1, Write (GPIO_BSRR GPIOF) 0x10,
                     Write (GPIO_BSRR GPIOG) 0x10]
                  @ map (\<lambda>c. Write USART3_TDR (of_char c))
                      (''BLINK 0 PB0=1 PF4=1 PG4=1 BTN13=0'' @ [CR, LF]))"
proof -
  from main_init_send[OF assms, of m] obtain mi where mi: "main_init hw h m = Some mi"
    by blast
  let ?btn = "drop_bit 13 (hw (ticks mi) (GPIO_IDR GPIOC)) AND 1"
  from main_iter_send[OF assms, of mi 0 0] obtain t where
    it: "main_iter hw h (0, 0, mi) =
           Some (1, 1, send (map of_char (status_line 0 1 ?btn)) ((led_write 1 mi)\<lparr>ticks := t\<rparr>))"
    by auto
  let ?m' = "send (map of_char (status_line 0 1 ?btn)) ((led_write 1 mi)\<lparr>ticks := t\<rparr>)"
  have run: "main hw h 1 m = Some (1, 1, ?m')"
    using mi it by (subst main_one_round) simp
  have tr: "trace ?m' = trace mi
                  @ [Write (GPIO_BSRR GPIOB) 0x1, Write (GPIO_BSRR GPIOF) 0x10,
                     Write (GPIO_BSRR GPIOG) 0x10]
                  @ map (\<lambda>c. Write USART3_TDR (of_char c))
                      (''BLINK 0 PB0=1 PF4=1 PG4=1 BTN13=0'' @ [CR, LF])"
    if "\<not> bit (hw (ticks mi) (GPIO_IDR GPIOC)) 13"
  proof -
    from that have "?btn = 0" by (rule button_low)
    then have "trace ?m' = trace (led_write 1 mi)
        @ map (\<lambda>c. Write USART3_TDR (of_char c)) (status_line 0 1 0)"
      by (simp add: trace_send comp_def ucast_of_char)
    then show ?thesis
      by (simp only: status_line_first led_write_trace) simp
  qed
  show ?thesis using mi it run tr by blast
qed

text \<open>C2 on the concrete board, whose input pins read low.\<close>

theorem first_blink_line_witness:
  "txe_recurs hw_ready sample_header
   \<and> (\<exists>mi m'. main_init hw_ready sample_header reset_machine = Some mi
         \<and> \<not> bit (hw_ready (ticks mi) (GPIO_IDR GPIOC)) 13
         \<and> main hw_ready sample_header 1 reset_machine = Some (1, 1, m')
         \<and> trace m' = trace mi
              @ [Write (GPIO_BSRR GPIOB) 0x1, Write (GPIO_BSRR GPIOF) 0x10,
                 Write (GPIO_BSRR GPIOG) 0x10]
              @ map (\<lambda>c. Write USART3_TDR (of_char c))
                  (''BLINK 0 PB0=1 PF4=1 PG4=1 BTN13=0'' @ [CR, LF]))"
  using first_blink_line[OF txe_recurs_hw_ready, of reset_machine] txe_recurs_hw_ready
  by auto

text \<open>
  C3, as the code has it. The stress-test firmware runs in this order: it fills
  the buffer (cell \<open>i\<close> gets \<open>i mod 256\<close>), initialises the UART, programs
  the DMA channel and starts the transfer (the last store of \<open>dma1_init\<close>),
  and only then signals the start on the pin and over the UART; it polls for
  completion, reports the pass, clears the pin and executes the breakpoint. The
  accesses of the run show where the poll falls: every load of the DMA status
  register comes after the last store of the start message and before the first
  store of the pass message, there is at least one, the last one sees the
  completion flag and none before it does. The poll has no timeout: if the flag
  never shows, \<open>main\<close> does not get past it. After the breakpoint \<open>main\<close>
  spins and never returns.
\<close>

theorem hil_main_order:
  "(txe_recurs hw h \<and> tcif_recurs hw h \<longrightarrow>
      (\<exists>m' pre t1 t2 post. hil_main_body hw h m = Some m'
         \<and> trace m' = trace m
             @ map (\<lambda>i. Store i (of_nat (i mod 256))) [0..<256]
             @ hil_uart3_init_stores h (regs m)
             @ dma1_init_stores h (regs m)
             @ [Write (GPIO_BSRR GPIOB) (push_bit 0 1)]
             @ map (\<lambda>c. Write USART3_TDR (of_char c)) (''HIL Stress Test Started'' @ [CR, LF])
             @ map (\<lambda>c. Write USART3_TDR (of_char c)) (''HIL Stress Test Passed'' @ [CR, LF])
             @ [Write (GPIO_BSRR GPIOB) (push_bit 16 1), Bkpt]
         \<and> (length (stress_buffer m) = 256 \<longrightarrow>
               stress_buffer m' = map (\<lambda>i. of_nat (i mod 256)) [0..<256])
         \<and> hil_main_body_log hw h m = Some (m', pre @ polls DMA1_ISR t1 t2 @ post)
         \<and> stores pre =
               map (\<lambda>i. Store i (of_nat (i mod 256))) [0..<256]
             @ hil_uart3_init_stores h (regs m)
             @ dma1_init_stores h (regs m)
             @ [Write (GPIO_BSRR GPIOB) (push_bit 0 1)]
             @ map (\<lambda>c. Write USART3_TDR (of_char c)) (''HIL Stress Test Started'' @ [CR, LF])
         \<and> stores post =
               map (\<lambda>c. Write USART3_TDR (of_char c)) (''HIL Stress Test Passed'' @ [CR, LF])
             @ [Write (GPIO_BSRR GPIOB) (push_bit 16 1), Bkpt]
         \<and> (\<forall>k. Load DMA1_ISR k \<notin> set (pre @ post))
         \<and> t1 < t2 \<and> hw (t2 - 1) DMA1_ISR AND h DMA_ISR_TCIF1 \<noteq> 0
         \<and> (\<forall>k. t1 \<le> k \<and> k < t2 - 1 \<longrightarrow> hw k DMA1_ISR AND h DMA_ISR_TCIF1 = 0)))
   \<and> ((\<forall>t. hw t DMA1_ISR AND h DMA_ISR_TCIF1 = 0) \<longrightarrow> hil_main_body hw h m = None)
   \<and> hil_main hw h m = None"
proof (intro conjI impI)
  assume "txe_recurs hw h \<and> tcif_recurs hw h"
  then have a: "txe_recurs hw h" "tcif_recurs hw h" by simp_all
  from hil_main_body_log_order[OF a, of m] obtain m' pre t1 t2 post where
    l: "hil_main_body_log hw h m = Some (m', pre @ polls DMA1_ISR t1 t2 @ post)"
    and o: "stores pre =
               map (\<lambda>i. Store i (of_nat i)) [0..<256]
             @ hil_uart3_init_stores h (regs m)
             @ dma1_init_stores h (regs m)
             @ [Write (GPIO_BSRR GPIOB) (push_bit 0 1)]
             @ map (\<lambda>c. Write USART3_TDR (of_char c)) (''HIL Stress Test Started'' @ [CR, LF])"
       "stores post =
               map (\<lambda>c. Write USART3_TDR (of_char c)) (''HIL Stress Test Passed'' @ [CR, LF])
             @ [Write (GPIO_BSRR GPIOB) (push_bit 16 1), Bkpt]"
       "\<forall>k. Load DMA1_ISR k \<notin> set (pre @ post)"
       "t1 < t2" "hw (t2 - 1) DMA1_ISR AND h DMA_ISR_TCIF1 \<noteq> 0"
       "\<forall>k. t1 \<le> k \<and> k < t2 - 1 \<longrightarrow> hw k DMA1_ISR AND h DMA_ISR_TCIF1 = 0"
    by blast
  from hil_main_body_log_fst[of hw h m] l have p: "hil_main_body hw h m = Some m'" by simp
  from hil_main_body_trace[OF a, of m] p have
    t: "trace m' = trace m
         @ map (\<lambda>i. Store i (of_nat i)) [0..<256]
         @ hil_uart3_init_stores h (regs m)
         @ dma1_init_stores h (regs m)
         @ [Write (GPIO_BSRR GPIOB) (push_bit 0 1)]
         @ map (\<lambda>c. Write USART3_TDR (of_char c)) (''HIL Stress Test Started'' @ [CR, LF])
         @ map (\<lambda>c. Write USART3_TDR (of_char c)) (''HIL Stress Test Passed'' @ [CR, LF])
         @ [Write (GPIO_BSRR GPIOB) (push_bit 16 1), Bkpt]"
    and b: "length (stress_buffer m) = 256 \<longrightarrow> stress_buffer m' = map of_nat [0..<256]"
    by auto
  from p t b l o
  show "\<exists>m' pre t1 t2 post. hil_main_body hw h m = Some m'
         \<and> trace m' = trace m
             @ map (\<lambda>i. Store i (of_nat (i mod 256))) [0..<256]
             @ hil_uart3_init_stores h (regs m)
             @ dma1_init_stores h (regs m)
             @ [Write (GPIO_BSRR GPIOB) (push_bit 0 1)]
             @ map (\<lambda>c. Write USART3_TDR (of_char c)) (''HIL Stress Test Started'' @ [CR, LF])
             @ map (\<lambda>c. Write USART3_TDR (of_char c)) (''HIL Stress Test Passed'' @ [CR, LF])
             @ [Write (GPIO_BSRR GPIOB) (push_bit 16 1), Bkpt]
         \<and> (length (stress_buffer m) = 256 \<longrightarrow>
               stress_buffer m' = map (\<lambda>i. of_nat (i mod 256)) [0..<256])
         \<and> hil_main_body_log hw h m = Some (m', pre @ polls DMA1_ISR t1 t2 @ post)
         \<and> stores pre =
               map (\<lambda>i. Store i (of_nat (i mod 256))) [0..<256]
             @ hil_uart3_init_stores h (regs m)
             @ dma1_init_stores h (regs m)
             @ [Write (GPIO_BSRR GPIOB) (push_bit 0 1)]
             @ map (\<lambda>c. Write USART3_TDR (of_char c)) (''HIL Stress Test Started'' @ [CR, LF])
         \<and> stores post =
               map (\<lambda>c. Write USART3_TDR (of_char c)) (''HIL Stress Test Passed'' @ [CR, LF])
             @ [Write (GPIO_BSRR GPIOB) (push_bit 16 1), Bkpt]
         \<and> (\<forall>k. Load DMA1_ISR k \<notin> set (pre @ post))
         \<and> t1 < t2 \<and> hw (t2 - 1) DMA1_ISR AND h DMA_ISR_TCIF1 \<noteq> 0
         \<and> (\<forall>k. t1 \<le> k \<and> k < t2 - 1 \<longrightarrow> hw k DMA1_ISR AND h DMA_ISR_TCIF1 = 0)"
    unfolding pattern_mod pattern_mod_buffer by blast
next
  assume "\<forall>t. hw t DMA1_ISR AND h DMA_ISR_TCIF1 = 0"
  then show "hil_main_body hw h m = None" by (rule hil_main_body_no_tcif)
next
  show "hil_main hw h m = None" by (rule hil_main_None)
qed

text \<open>C3 on the concrete board, and on the board whose DMA never completes.\<close>

theorem hil_main_order_witness:
  "txe_recurs hw_ready sample_header \<and> tcif_recurs hw_ready sample_header
   \<and> length (stress_buffer reset_machine) = 256
   \<and> (\<forall>t. hw_no_dma t DMA1_ISR AND sample_header DMA_ISR_TCIF1 = 0)
   \<and> (\<exists>m' pre t1 t2 post. hil_main_body hw_ready sample_header reset_machine = Some m'
         \<and> trace m' =
             map (\<lambda>i. Store i (of_nat (i mod 256))) [0..<256]
             @ hil_uart3_init_stores sample_header (\<lambda>r. 0)
             @ dma1_init_stores sample_header (\<lambda>r. 0)
             @ [Write (GPIO_BSRR GPIOB) 1]
             @ map (\<lambda>c. Write USART3_TDR (of_char c)) (''HIL Stress Test Started'' @ [CR, LF])
             @ map (\<lambda>c. Write USART3_TDR (of_char c)) (''HIL Stress Test Passed'' @ [CR, LF])
             @ [Write (GPIO_BSRR GPIOB) 0x10000, Bkpt]
         \<and> stress_buffer m' = map (\<lambda>i. of_nat (i mod 256)) [0..<256]
         \<and> hil_main_body_log hw_ready sample_header reset_machine
              = Some (m', pre @ polls DMA1_ISR t1 t2 @ post)
         \<and> stores pre =
               map (\<lambda>i. Store i (of_nat (i mod 256))) [0..<256]
             @ hil_uart3_init_stores sample_header (\<lambda>r. 0)
             @ dma1_init_stores sample_header (\<lambda>r. 0)
             @ [Write (GPIO_BSRR GPIOB) 1]
             @ map (\<lambda>c. Write USART3_TDR (of_char c)) (''HIL Stress Test Started'' @ [CR, LF])
         \<and> stores post =
               map (\<lambda>c. Write USART3_TDR (of_char c)) (''HIL Stress Test Passed'' @ [CR, LF])
             @ [Write (GPIO_BSRR GPIOB) 0x10000, Bkpt]
         \<and> (\<forall>k. Load DMA1_ISR k \<notin> set (pre @ post))
         \<and> t1 < t2)
   \<and> hil_main_body hw_no_dma sample_header reset_machine = None
   \<and> hil_main hw_ready sample_header reset_machine = None"
proof -
  have a: "txe_recurs hw_ready sample_header \<and> tcif_recurs hw_ready sample_header"
    by (simp add: txe_recurs_hw_ready tcif_recurs_hw_ready)
  have b: "\<forall>t. hw_no_dma t DMA1_ISR AND sample_header DMA_ISR_TCIF1 = 0" by simp
  have c: "length (stress_buffer reset_machine) = 256" by (simp add: reset_machine_def)
  have r: "trace reset_machine = []" "regs reset_machine = (\<lambda>r. 0)"
    by (simp_all add: reset_machine_def)
  have v: "push_bit 0 (1 :: u32) = 1" "push_bit 16 (1 :: u32) = 0x10000" by simp_all
  from hil_main_order[of hw_ready sample_header reset_machine] a c
  have "\<exists>m' pre t1 t2 post. hil_main_body hw_ready sample_header reset_machine = Some m'
         \<and> trace m' =
             map (\<lambda>i. Store i (of_nat (i mod 256))) [0..<256]
             @ hil_uart3_init_stores sample_header (\<lambda>r. 0)
             @ dma1_init_stores sample_header (\<lambda>r. 0)
             @ [Write (GPIO_BSRR GPIOB) 1]
             @ map (\<lambda>c. Write USART3_TDR (of_char c)) (''HIL Stress Test Started'' @ [CR, LF])
             @ map (\<lambda>c. Write USART3_TDR (of_char c)) (''HIL Stress Test Passed'' @ [CR, LF])
             @ [Write (GPIO_BSRR GPIOB) 0x10000, Bkpt]
         \<and> stress_buffer m' = map (\<lambda>i. of_nat (i mod 256)) [0..<256]
         \<and> hil_main_body_log hw_ready sample_header reset_machine
              = Some (m', pre @ polls DMA1_ISR t1 t2 @ post)
         \<and> stores pre =
               map (\<lambda>i. Store i (of_nat (i mod 256))) [0..<256]
             @ hil_uart3_init_stores sample_header (\<lambda>r. 0)
             @ dma1_init_stores sample_header (\<lambda>r. 0)
             @ [Write (GPIO_BSRR GPIOB) 1]
             @ map (\<lambda>c. Write USART3_TDR (of_char c)) (''HIL Stress Test Started'' @ [CR, LF])
         \<and> stores post =
               map (\<lambda>c. Write USART3_TDR (of_char c)) (''HIL Stress Test Passed'' @ [CR, LF])
             @ [Write (GPIO_BSRR GPIOB) 0x10000, Bkpt]
         \<and> (\<forall>k. Load DMA1_ISR k \<notin> set (pre @ post))
         \<and> t1 < t2"
    unfolding r v append_Nil by blast
  moreover from hil_main_order[of hw_no_dma sample_header reset_machine] b
  have "hil_main_body hw_no_dma sample_header reset_machine = None" by blast
  moreover from hil_main_order[of hw_ready sample_header reset_machine]
  have "hil_main hw_ready sample_header reset_machine = None" by blast
  ultimately show ?thesis using a b c by blast
qed

text \<open>
  C3 as stated fails: the specification puts the start signal before the start
  of the transfer. On the concrete board the store that enables the channel is
  store 269 of the run, the pin is asserted by store 270, and the first
  character of the start message follows.
\<close>

theorem hil_main_order_counterexample:
  "take 3 (drop 269 (trace (the (hil_main_body hw_ready sample_header reset_machine))))
     = [Write DMA1_Channel1_CCR 0x93, Write (GPIO_BSRR GPIOB) 1,
        Write USART3_TDR (of_char CHR ''H'')]"
proof -
  from hil_main_body_trace[OF txe_recurs_hw_ready tcif_recurs_hw_ready, of reset_machine]
  obtain m' where
    m': "hil_main_body hw_ready sample_header reset_machine = Some m'"
    and "trace m' = trace reset_machine
         @ map (\<lambda>i. Store i (of_nat i)) [0..<256]
         @ hil_uart3_init_stores sample_header (regs reset_machine)
         @ dma1_init_stores sample_header (regs reset_machine)
         @ [Write (GPIO_BSRR GPIOB) (push_bit 0 1)]
         @ map (\<lambda>c. Write USART3_TDR (of_char c)) (''HIL Stress Test Started'' @ [CR, LF])
         @ map (\<lambda>c. Write USART3_TDR (of_char c)) (''HIL Stress Test Passed'' @ [CR, LF])
         @ [Write (GPIO_BSRR GPIOB) (push_bit 16 1), Bkpt]"
    by blast
  then have "take 3 (drop 269 (trace m'))
     = [Write DMA1_Channel1_CCR 0x93, Write (GPIO_BSRR GPIOB) 1,
        Write USART3_TDR (of_char CHR ''H'')]"
    by (simp add: reset_machine_def hil_uart3_init_stores_def dma1_init_stores_def
          STRESS_BUFFER_SIZE_def del: upt_rec_numeral)
  with m' show ?thesis by simp
qed

text \<open>
  C4, as the code has it. \<open>uart3_init\<close> of the board firmware first stores 0 to
  the three control registers, which disables the UART and clears them, then
  programs the divisor 556, then enables transmitter, receiver and UART in one
  store. \<open>uart3_init\<close> of the stress-test firmware programs the same divisor,
  but clears nothing first: it sets the DMA request bit in the third control
  register, leaves the second as it finds it, and enables transmitter and UART
  only.
\<close>

theorem uart3_init_order:
  "(\<exists>pre. trace (uart3_init h m) = trace m @ pre
        @ [Write USART3_CR1 0, Write USART3_CR2 0, Write USART3_CR3 0, Write USART3_BRR 556,
           Write USART3_CR1 (h USART_CR1_TE OR h USART_CR1_RE OR h USART_CR1_UE)]
      \<and> filter is_usart_store pre = [])
   \<and> regs (uart3_init h m) USART3_CR1 = h USART_CR1_TE OR h USART_CR1_RE OR h USART_CR1_UE
   \<and> regs (uart3_init h m) USART3_CR2 = 0
   \<and> regs (uart3_init h m) USART3_CR3 = 0
   \<and> regs (uart3_init h m) USART3_BRR = 556
   \<and> (\<exists>pre. trace (hil_uart3_init h m) = trace m @ pre
        @ [Write USART3_BRR 556, Write USART3_CR3 (regs m USART3_CR3 OR h USART_CR3_DMAT),
           Write USART3_CR1 (h USART_CR1_TE OR h USART_CR1_UE)]
      \<and> filter is_usart_store pre = [])
   \<and> regs (hil_uart3_init h m) USART3_CR1 = h USART_CR1_TE OR h USART_CR1_UE
   \<and> regs (hil_uart3_init h m) USART3_CR2 = regs m USART3_CR2
   \<and> regs (hil_uart3_init h m) USART3_CR3 = regs m USART3_CR3 OR h USART_CR3_DMAT"
proof -
  have "\<exists>pre. trace (uart3_init h m) = trace m @ pre
        @ [Write USART3_CR1 0, Write USART3_CR2 0, Write USART3_CR3 0, Write USART3_BRR 556,
           Write USART3_CR1 (h USART_CR1_TE OR h USART_CR1_RE OR h USART_CR1_UE)]
      \<and> filter is_usart_store pre = []"
    unfolding uart3_init_trace
    by (rule exI[of _ "take 11 (drop (length (trace m)) (trace (uart3_init h m)))"])
       (simp add: uart3_init_trace)
  moreover have "\<exists>pre. trace (hil_uart3_init h m) = trace m @ pre
        @ [Write USART3_BRR 556, Write USART3_CR3 (regs m USART3_CR3 OR h USART_CR3_DMAT),
           Write USART3_CR1 (h USART_CR1_TE OR h USART_CR1_UE)]
      \<and> filter is_usart_store pre = []"
    unfolding hil_uart3_init_trace
    by (rule exI[of _ "take 6 (hil_uart3_init_stores h (regs m))"])
       (simp add: hil_uart3_init_stores_def)
  ultimately show ?thesis
    by (simp only: uart3_init_regs hil_uart3_init_regs simp_thms)
qed

text \<open>C4 on the concrete board, started with a bit set in the second control register.\<close>

theorem uart3_init_order_witness:
  "filter is_usart_store (trace dirty_machine) = []
   \<and> filter is_usart_store (trace (uart3_init sample_header dirty_machine))
       = [Write USART3_CR1 0, Write USART3_CR2 0, Write USART3_CR3 0, Write USART3_BRR 556,
          Write USART3_CR1 0xD]
   \<and> regs (uart3_init sample_header dirty_machine) USART3_CR2 = 0
   \<and> filter is_usart_store (trace (hil_uart3_init sample_header dirty_machine))
       = [Write USART3_BRR 556, Write USART3_CR3 0x80, Write USART3_CR1 0x9]
   \<and> regs (hil_uart3_init sample_header dirty_machine) USART3_CR2 = 1"
proof -
  have t: "trace dirty_machine = []" and r: "regs dirty_machine USART3_CR3 = 0"
    "regs dirty_machine USART3_CR2 = 1"
    by (simp_all add: dirty_machine_def reset_machine_def)
  from uart3_init_order[of sample_header dirty_machine] show ?thesis
    by (auto simp: t r)
qed

text \<open>
  C4 as stated fails for the stress-test firmware: its first store to the USART
  is the divisor, a bit set in the second control register survives the
  routine, and the receiver-enable bit is not in the word it leaves in the first.
\<close>

theorem uart3_init_order_counterexample:
  "filter is_usart_store (trace (hil_uart3_init sample_header dirty_machine))
       = [Write USART3_BRR 556, Write USART3_CR3 0x80, Write USART3_CR1 0x9]
   \<and> regs dirty_machine USART3_CR2 = 1
   \<and> regs (hil_uart3_init sample_header dirty_machine) USART3_CR2 = 1
   \<and> regs (hil_uart3_init sample_header dirty_machine) USART3_CR1 AND sample_header USART_CR1_RE = 0"
  by (simp add: hil_uart3_init_trace hil_uart3_init_regs hil_uart3_init_stores_def
        dirty_machine_def reset_machine_def)

text \<open>
  C6. In the run of the stress-test firmware the peripheral address, the memory
  address and the transfer count of the channel are stored, in this order, just
  before the only store to the channel's control register, so that the control
  register, and with it the enable bit, still holds what it held when \<open>main\<close>
  started (0 out of reset: disabled) while they are programmed; the store that
  sets the UART's transmit-DMA-request bit comes before, and the bit is set at
  that point; and that single store to the control register carries memory
  increment, direction, completion-interrupt enable and channel enable together.
\<close>

theorem dma1_programming_order:
  assumes "txe_recurs hw h" and "tcif_recurs hw h"
  shows "\<exists>m' pre post. hil_main_body hw h m = Some m'
     \<and> trace m' = trace m @ pre
          @ [Write DMA1_Channel1_CPAR (h ADDR_USART3_TDR),
             Write DMA1_Channel1_CMAR (h ADDR_stress_buffer),
             Write DMA1_Channel1_CNDTR STRESS_BUFFER_SIZE,
             Write DMA1_Channel1_CCR
               (h DMA_CCR_MINC OR h DMA_CCR_DIR OR h DMA_CCR_TCIE OR h DMA_CCR_EN)]
          @ post
     \<and> (\<forall>v. Write DMA1_Channel1_CCR v \<notin> set (pre @ post))
     \<and> Write USART3_CR3 (regs m USART3_CR3 OR h USART_CR3_DMAT) \<in> set pre
     \<and> replay pre (regs m) USART3_CR3 = regs m USART3_CR3 OR h USART_CR3_DMAT
     \<and> replay (pre @ [Write DMA1_Channel1_CPAR (h ADDR_USART3_TDR),
                       Write DMA1_Channel1_CMAR (h ADDR_stress_buffer),
                       Write DMA1_Channel1_CNDTR STRESS_BUFFER_SIZE]) (regs m) DMA1_Channel1_CCR
         = regs m DMA1_Channel1_CCR"
proof -
  let ?pre = "map (\<lambda>i. Store i (of_nat i)) [0..<256] @ hil_uart3_init_stores h (regs m)
                @ [Write RCC_AHB1ENR (regs m RCC_AHB1ENR OR h RCC_AHB1ENR_DMA1EN)]"
  let ?post = "[Write (GPIO_BSRR GPIOB) (push_bit 0 1)]
         @ map (\<lambda>c. Write USART3_TDR (of_char c)) (''HIL Stress Test Started'' @ [CR, LF])
         @ map (\<lambda>c. Write USART3_TDR (of_char c)) (''HIL Stress Test Passed'' @ [CR, LF])
         @ [Write (GPIO_BSRR GPIOB) (push_bit 16 1), Bkpt]"
  from hil_main_body_trace[OF assms, of m] obtain m' where
    m': "hil_main_body hw h m = Some m'"
    and tr: "trace m' = trace m
         @ map (\<lambda>i. Store i (of_nat i)) [0..<256]
         @ hil_uart3_init_stores h (regs m)
         @ dma1_init_stores h (regs m)
         @ [Write (GPIO_BSRR GPIOB) (push_bit 0 1)]
         @ map (\<lambda>c. Write USART3_TDR (of_char c)) (''HIL Stress Test Started'' @ [CR, LF])
         @ map (\<lambda>c. Write USART3_TDR (of_char c)) (''HIL Stress Test Passed'' @ [CR, LF])
         @ [Write (GPIO_BSRR GPIOB) (push_bit 16 1), Bkpt]"
    by blast
  have 1: "trace m' = trace m @ ?pre
          @ [Write DMA1_Channel1_CPAR (h ADDR_USART3_TDR),
             Write DMA1_Channel1_CMAR (h ADDR_stress_buffer),
             Write DMA1_Channel1_CNDTR STRESS_BUFFER_SIZE,
             Write DMA1_Channel1_CCR
               (h DMA_CCR_MINC OR h DMA_CCR_DIR OR h DMA_CCR_TCIE OR h DMA_CCR_EN)]
          @ ?post"
    unfolding tr by (simp add: dma1_init_stores_def del: map_append upt_rec_numeral push_bit_of_1)
  have 2: "\<forall>v. Write DMA1_Channel1_CCR v \<notin> set (?pre @ ?post)"
    by (auto simp: hil_uart3_init_stores_def simp del: upt_rec_numeral push_bit_of_1)
  have 3: "Write USART3_CR3 (regs m USART3_CR3 OR h USART_CR3_DMAT) \<in> set ?pre"
    by (simp add: hil_uart3_init_stores_def del: upt_rec_numeral)
  have 4: "replay ?pre (regs m) USART3_CR3 = regs m USART3_CR3 OR h USART_CR3_DMAT"
    by (simp add: hil_uart3_init_stores_def del: upt_rec_numeral)
  have 5: "replay (?pre @ [Write DMA1_Channel1_CPAR (h ADDR_USART3_TDR),
                       Write DMA1_Channel1_CMAR (h ADDR_stress_buffer),
                       Write DMA1_Channel1_CNDTR STRESS_BUFFER_SIZE]) (regs m) DMA1_Channel1_CCR
         = regs m DMA1_Channel1_CCR"
    by (simp add: hil_uart3_init_stores_def del: upt_rec_numeral)
  from m' 1 2 3 4 5 show ?thesis by blast
qed

text \<open>C6 on the concrete board.\<close>

theorem dma1_programming_order_witness:
  "txe_recurs hw_ready sample_header \<and> tcif_recurs hw_ready sample_header
   \<and> (\<exists>m' pre post. hil_main_body hw_ready sample_header reset_machine = Some m'
     \<and> trace m' = pre
          @ [Write DMA1_Channel1_CPAR 0x40004828,
             Write DMA1_Channel1_CMAR 0x20000000,
             Write DMA1_Channel1_CNDTR 256,
             Write DMA1_Channel1_CCR 0x93]
          @ post
     \<and> (\<forall>v. Write DMA1_Channel1_CCR v \<notin> set (pre @ post))
     \<and> Write USART3_CR3 0x80 \<in> set pre
     \<and> replay pre (\<lambda>r. 0) USART3_CR3 = 0x80
     \<and> replay (pre @ [Write DMA1_Channel1_CPAR 0x40004828,
                       Write DMA1_Channel1_CMAR 0x20000000,
                       Write DMA1_Channel1_CNDTR 256]) (\<lambda>r. 0) DMA1_Channel1_CCR = 0)"
  using dma1_programming_order[OF txe_recurs_hw_ready tcif_recurs_hw_ready, of reset_machine]
    txe_recurs_hw_ready tcif_recurs_hw_ready
  by (simp add: reset_machine_def STRESS_BUFFER_SIZE_def)

text \<open>
  C7, as the code has it. Whatever the number of rounds, the text the board
  firmware sends consists of lines ending in carriage return, line feed, and so
  does the text the processor sends in the stress-test firmware (the bytes the
  DMA engine moves are the test pattern, not lines). The lines of the hello
  example end in a line feed alone: no carriage return is sent at all.
\<close>

theorem serial_line_endings:
  "(txe_recurs hw h \<longrightarrow>
      (\<exists>bc led m' L. main hw h n m = Some (bc, led, m')
         \<and> uart_tx (trace m') = uart_tx (trace m) @ L \<and> crlf_lines L))
   \<and> (txe_recurs hw h \<and> tcif_recurs hw h \<longrightarrow>
      (\<exists>m'. hil_main_body hw h m = Some m'
         \<and> uart_tx (trace m') = uart_tx (trace m)
              @ (''HIL Stress Test Started'' @ [CR, LF]) @ (''HIL Stress Test Passed'' @ [CR, LF])))
   \<and> crlf_lines ((''HIL Stress Test Started'' @ [CR, LF]) @ (''HIL Stress Test Passed'' @ [CR, LF]))
   \<and> uart_tx (trace (hello_main n m)) = uart_tx (trace m)
        @ (''Hello from LabWired C Example!'' @ [LF])
        @ (''This is running on a simulated ARM Cortex-M0.'' @ [LF])
        @ concat (replicate n (''Pulse...'' @ [LF]))
   \<and> CR \<notin> set ((''Hello from LabWired C Example!'' @ [LF])
        @ (''This is running on a simulated ARM Cortex-M0.'' @ [LF])
        @ concat (replicate n (''Pulse...'' @ [LF])))"
proof (intro conjI impI)
  assume "txe_recurs hw h"
  then show "\<exists>bc led m' L. main hw h n m = Some (bc, led, m')
         \<and> uart_tx (trace m') = uart_tx (trace m) @ L \<and> crlf_lines L"
    by (rule main_lines)
next
  assume "txe_recurs hw h \<and> tcif_recurs hw h"
  then show "\<exists>m'. hil_main_body hw h m = Some m'
         \<and> uart_tx (trace m') = uart_tx (trace m)
              @ (''HIL Stress Test Started'' @ [CR, LF]) @ (''HIL Stress Test Passed'' @ [CR, LF])"
    using hil_main_body_tx by blast
next
  show "crlf_lines ((''HIL Stress Test Started'' @ [CR, LF]) @ (''HIL Stress Test Passed'' @ [CR, LF]))"
    by (simp add: CR_def LF_def)
next
  show "uart_tx (trace (hello_main n m)) = uart_tx (trace m)
        @ (''Hello from LabWired C Example!'' @ [LF])
        @ (''This is running on a simulated ARM Cortex-M0.'' @ [LF])
        @ concat (replicate n (''Pulse...'' @ [LF]))"
    by (rule hello_main_tx)
next
  show "CR \<notin> set ((''Hello from LabWired C Example!'' @ [LF])
        @ (''This is running on a simulated ARM Cortex-M0.'' @ [LF])
        @ concat (replicate n (''Pulse...'' @ [LF])))"
    using CR_not_in_pulses[of n] by (simp add: CR_def LF_def)
qed

text \<open>C7 on the concrete board: two rounds of the board firmware, one pulse of the hello example.\<close>

theorem serial_line_endings_witness:
  "txe_recurs hw_ready sample_header \<and> tcif_recurs hw_ready sample_header
   \<and> (\<exists>bc led m' L. main hw_ready sample_header 2 reset_machine = Some (bc, led, m')
         \<and> uart_tx (trace m') = L \<and> crlf_lines L)
   \<and> (\<exists>m'. hil_main_body hw_ready sample_header reset_machine = Some m'
         \<and> uart_tx (trace m')
             = (''HIL Stress Test Started'' @ [CR, LF]) @ (''HIL Stress Test Passed'' @ [CR, LF]))
   \<and> uart_tx (trace (hello_main 1 reset_machine))
        = (''Hello from LabWired C Example!'' @ [LF])
        @ (''This is running on a simulated ARM Cortex-M0.'' @ [LF])
        @ (''Pulse...'' @ [LF])"
proof -
  have a: "txe_recurs hw_ready sample_header" "tcif_recurs hw_ready sample_header"
    by (rule txe_recurs_hw_ready, rule tcif_recurs_hw_ready)
  have t: "uart_tx (trace reset_machine) = []" by (simp add: reset_machine_def)
  from serial_line_endings[of hw_ready sample_header 2 reset_machine] a
  have 1: "\<exists>bc led m' L. main hw_ready sample_header 2 reset_machine = Some (bc, led, m')
         \<and> uart_tx (trace m') = L \<and> crlf_lines L"
    by (simp only: t append_Nil)
  from serial_line_endings[of hw_ready sample_header 2 reset_machine] a
  have 2: "\<exists>m'. hil_main_body hw_ready sample_header reset_machine = Some m'
         \<and> uart_tx (trace m')
             = (''HIL Stress Test Started'' @ [CR, LF]) @ (''HIL Stress Test Passed'' @ [CR, LF])"
    by (simp only: t append_Nil)
  from serial_line_endings[of hw_ready sample_header 1 reset_machine]
  have 3: "uart_tx (trace (hello_main 1 reset_machine))
        = (''Hello from LabWired C Example!'' @ [LF])
        @ (''This is running on a simulated ARM Cortex-M0.'' @ [LF])
        @ (''Pulse...'' @ [LF])"
    by (simp add: t)
  from a 1 2 3 show ?thesis by blast
qed

text \<open>C7 as stated fails for the hello example, already for its two banners.\<close>

theorem serial_line_endings_counterexample:
  "\<not> crlf_lines (uart_tx (trace (hello_main 0 reset_machine)))"
  by (simp add: hello_main_tx reset_machine_def CR_def LF_def)

end
